theory Spec2Isabelle
  imports Main "HOL-Library.AList"
begin

section \<open>JavaScript strings\<close>

text \<open>
  A JavaScript string is a sequence of UTF-16 code units, and \<open>length\<close> counts code units.
  A literal of the source is written \<open>js ''room_''\<close>.
\<close>

type_synonym jsstring = "nat list"

definition js :: "string \<Rightarrow> jsstring" where
  "js s = map of_char s"

text \<open>
  \<open>String.prototype.trim\<close> removes ECMAScript WhiteSpace and LineTerminator code units
  from both ends: TAB, LF, VT, FF, CR, SP, NBSP, U+1680, U+2000 to U+200A, U+2028, U+2029,
  U+202F, U+205F, U+3000 and U+FEFF.
\<close>

definition is_ws :: "nat \<Rightarrow> bool" where
  "is_ws c \<longleftrightarrow>
     c \<in> {9, 10, 11, 12, 13, 32, 160, 5760, 8232, 8233, 8239, 8287, 12288, 65279}
     \<or> (8192 \<le> c \<and> c \<le> 8202)"

definition trim :: "jsstring \<Rightarrow> jsstring" where
  "trim s = rev (dropWhile is_ws (rev (dropWhile is_ws s)))"

text \<open>
  \<open>s.split(sep)\<close> for a separator of one code unit: the pieces between the separators,
  so that a string without separator gives one piece and the empty string gives \<open>[""]\<close>.
\<close>

fun split_from :: "nat \<Rightarrow> jsstring \<Rightarrow> jsstring \<Rightarrow> jsstring list" where
  "split_from sep cur [] = [rev cur]"
| "split_from sep cur (x # xs) =
     (if x = sep then rev cur # split_from sep [] xs else split_from sep (x # cur) xs)"

definition split :: "jsstring \<Rightarrow> nat \<Rightarrow> jsstring list" where
  "split s sep = split_from sep [] s"

definition underscore :: nat where
  "underscore = of_char CHR ''_''"

definition includes_js :: "jsstring list \<Rightarrow> jsstring \<Rightarrow> bool" where
  "includes_js xs x \<longleftrightarrow> x \<in> set xs"

text \<open>
  PostgreSQL's \<open>char_length\<close> counts code points: a high surrogate followed by a low
  surrogate is one character, every other code unit is one character.
\<close>

definition is_high :: "nat \<Rightarrow> bool" where
  "is_high c \<longleftrightarrow> 55296 \<le> c \<and> c \<le> 56319"

definition is_low :: "nat \<Rightarrow> bool" where
  "is_low c \<longleftrightarrow> 56320 \<le> c \<and> c \<le> 57343"

fun char_length :: "jsstring \<Rightarrow> nat" where
  "char_length [] = 0"
| "char_length [u] = 1"
| "char_length (h # l # us) =
     (if is_high h \<and> is_low l then Suc (char_length us) else Suc (char_length (l # us)))"

text \<open>
  A string that goes to the store as a query parameter is written as UTF-8 and read back
  from UTF-8. A surrogate code unit that is not part of a pair has no UTF-8 form: it is
  written as U+FFFD, and that is what the store holds and returns. Pairs and all other
  code units come back as they went.
\<close>

fun utf8_roundtrip :: "jsstring \<Rightarrow> jsstring" where
  "utf8_roundtrip [] = []"
| "utf8_roundtrip [u] = [if is_high u \<or> is_low u then 65533 else u]"
| "utf8_roundtrip (h # l # us) =
     (if is_high h \<and> is_low l then h # l # utf8_roundtrip us
      else (if is_high h \<or> is_low h then 65533 else h) # utf8_roundtrip (l # us))"

text \<open>
  PostgreSQL refuses a text parameter that contains U+0000 (\<open>invalid byte sequence for
  encoding "UTF8": 0x00\<close>) before it runs the statement. \<open>pg_text t\<close> is the value the
  statement sees for the parameter \<open>t\<close>, when it is accepted.
\<close>

definition pg_text :: "jsstring \<Rightarrow> jsstring option" where
  "pg_text t = (if 0 \<in> set t then None else Some (utf8_roundtrip t))"

text \<open>The strings that the round trip leaves as they are: no surrogate outside a pair.\<close>

fun well_formed :: "jsstring \<Rightarrow> bool" where
  "well_formed [] = True"
| "well_formed [u] = (\<not> is_high u \<and> \<not> is_low u)"
| "well_formed (h # l # us) =
     (if is_high h \<and> is_low l then well_formed us
      else \<not> is_high h \<and> \<not> is_low h \<and> well_formed (l # us))"

section \<open>The store (schema.sql)\<close>

text \<open>
  \<open>users\<close> is keyed by its primary key \<open>id\<close>, so a row does not repeat it: where the
  source reads \<open>user.id\<close> of a row found by \<open>WHERE id = $1\<close>, the model uses the key.
  One record serves \<open>messages\<close> and \<open>dm_messages\<close>; \<open>m_chan\<close> is the column \<open>room_id\<close>
  of the first and \<open>chat_id\<close> of the second. Time is a number of seconds.
\<close>

record user_row =
  u_name :: jsstring
  u_photo :: "jsstring option"
  u_email :: "jsstring option"
  u_premium :: bool
  u_is_banned :: bool
  u_last_seen :: nat

record msg_row =
  m_id :: nat
  m_chan :: jsstring
  m_user_id :: jsstring
  m_text :: jsstring
  m_created_at :: nat

record database =
  users :: "jsstring \<rightharpoonup> user_row"
  messages :: "msg_row list"
  dm_messages :: "msg_row list"
  friends :: "(jsstring \<times> jsstring) list"
  messages_id_seq :: nat
  dm_messages_id_seq :: nat

text \<open>
  What a handler cannot decide by itself comes from the environment: the value of
  \<open>NOW()\<close>, whether the awaited query is rejected (\<open>fault\<close> is the driver's error message)
  and whether the queries that are not awaited (\<open>.catch(() => {})\<close>) are rejected.
\<close>

record env =
  now :: nat
  fault :: "jsstring option"
  bg_fault :: "jsstring option"

definition fk_violation :: jsstring where
  "fk_violation = js ''violates foreign key constraint''"

definition check_violation :: jsstring where
  "check_violation = js ''violates check constraint''"

definition invalid_byte_sequence :: jsstring where
  "invalid_byte_sequence = js ''invalid byte sequence for encoding UTF8: 0x00''"

text \<open>
  \<open>INSERT INTO messages (room_id, user_id, text, created_at) VALUES ($1, $2, $3, NOW())
  RETURNING *\<close>. The channel and the text come from the client and reach the statement
  as \<open>pg_text\<close> gives them; the row that is stored and returned holds those values. The
  SERIAL column takes the next value of its sequence, which stays taken when the statement
  then fails a constraint: \<open>user_id REFERENCES users(id)\<close> or
  \<open>CHECK (char_length(text) <= 500)\<close>.
\<close>

definition insert_message ::
  "database \<Rightarrow> env \<Rightarrow> jsstring \<Rightarrow> jsstring \<Rightarrow> jsstring \<Rightarrow> (jsstring + msg_row) \<times> database" where
  "insert_message d e room uid txt =
     (case fault e of
        Some err \<Rightarrow> (Inl err, d)
      | None \<Rightarrow>
          (case (pg_text room, pg_text txt) of
             (Some stored_chan, Some stored_txt) \<Rightarrow>
               let i = Suc (messages_id_seq d); d1 = d\<lparr>messages_id_seq := i\<rparr> in
               if users d uid = None then (Inl fk_violation, d1)
               else if 500 < char_length stored_txt then (Inl check_violation, d1)
               else
                 let row = \<lparr>m_id = i, m_chan = stored_chan, m_user_id = uid,
                            m_text = stored_txt, m_created_at = now e\<rparr>
                 in (Inr row, d1\<lparr>messages := messages d1 @ [row]\<rparr>)
           | _ \<Rightarrow> (Inl invalid_byte_sequence, d)))"

definition insert_dm_message ::
  "database \<Rightarrow> env \<Rightarrow> jsstring \<Rightarrow> jsstring \<Rightarrow> jsstring \<Rightarrow> (jsstring + msg_row) \<times> database" where
  "insert_dm_message d e chat uid txt =
     (case fault e of
        Some err \<Rightarrow> (Inl err, d)
      | None \<Rightarrow>
          (case (pg_text chat, pg_text txt) of
             (Some stored_chan, Some stored_txt) \<Rightarrow>
               let i = Suc (dm_messages_id_seq d); d1 = d\<lparr>dm_messages_id_seq := i\<rparr> in
               if users d uid = None then (Inl fk_violation, d1)
               else if 500 < char_length stored_txt then (Inl check_violation, d1)
               else
                 let row = \<lparr>m_id = i, m_chan = stored_chan, m_user_id = uid,
                            m_text = stored_txt, m_created_at = now e\<rparr>
                 in (Inr row, d1\<lparr>dm_messages := dm_messages d1 @ [row]\<rparr>)
           | _ \<Rightarrow> (Inl invalid_byte_sequence, d)))"

section \<open>The server state and what it sends\<close>

text \<open>
  \<open>connectedUsers\<close> is the JavaScript \<open>Map\<close> from socket id to the cached profile, in
  insertion order. \<open>sockets\<close> are the ids of the live connections (\<open>io.sockets.sockets\<close>)
  and \<open>rooms s k\<close> is \<open>socket.rooms\<close> of the socket \<open>k\<close>, which socket.io starts as
  \<open>{k}\<close>: every socket is in the room named by its own id. \<open>in_flight s k\<close> are the
  lookups of the \<open>"auth"\<close> handler on the socket \<open>k\<close> whose \<open>then\<close> has not run yet: the
  identity of the token and, once the store has answered, the rows of the SELECT
  (at most one, since \<open>id\<close> is the primary key).
\<close>

record pending_auth =
  p_uid :: jsstring
  p_answer :: "user_row option option"

record session =
  uid :: jsstring
  name :: jsstring
  photo :: "jsstring option"
  premium :: bool

record server =
  pool :: database
  connectedUsers :: "(jsstring \<times> session) list"
  sockets :: "jsstring list"
  rooms :: "jsstring \<Rightarrow> jsstring set"
  in_flight :: "jsstring \<Rightarrow> pending_auth list"
  ADMIN_UID :: jsstring

record wire_message =
  w_id :: nat
  w_chan :: jsstring
  w_user_id :: jsstring
  w_name :: jsstring
  w_photo :: "jsstring option"
  w_premium :: bool
  w_text :: jsstring
  w_created_at :: nat

datatype out_event =
    AuthOk
  | AuthError jsstring
  | Banned
  | NewMessage wire_message
  | NewDm wire_message
  | MessageDeleted nat
  | MessageError jsstring

text \<open>
  A handler returns the new state and what it did, in order: a row stored, an event
  delivered to one socket, a rejected promise that nothing handles.
\<close>

datatype action =
    Stored msg_row
  | StoredDm msg_row
  | Deliver jsstring out_event
  | Unhandled jsstring

text \<open>\<open>io.to(room).emit(ev)\<close>: one delivery to each live socket that is in the room.\<close>

definition membersOf :: "server \<Rightarrow> jsstring \<Rightarrow> jsstring list" where
  "membersOf s room = filter (\<lambda>k. room \<in> rooms s k) (sockets s)"

definition io_to_emit :: "server \<Rightarrow> jsstring \<Rightarrow> out_event \<Rightarrow> action list" where
  "io_to_emit s room ev = map (\<lambda>k. Deliver k ev) (membersOf s room)"

text \<open>\<open>socket.emit(ev)\<close>: a socket that has closed receives nothing.\<close>

definition socket_emit :: "server \<Rightarrow> jsstring \<Rightarrow> out_event \<Rightarrow> action list" where
  "socket_emit s sid ev = (if sid \<in> set (sockets s) then [Deliver sid ev] else [])"

definition room_channel :: "jsstring \<Rightarrow> jsstring" where
  "room_channel room = js ''room_'' @ room"

definition dm_channel :: "jsstring \<Rightarrow> jsstring" where
  "dm_channel chat = js ''dm_'' @ chat"

section \<open>Sending\<close>

text \<open>
  The payloads \<open>{ roomId, text }\<close> and \<open>{ chatId, text }\<close>, with strings in both fields
  (\<open>text_in\<close> is \<open>text\<close>; a payload without text is dropped as the empty text is). The
  handlers destructure these two fields and nothing else, so they are defined on every
  extension of the records.
\<close>

record payload =
  text_in :: jsstring

record room_payload = payload +
  roomId :: jsstring

record dm_payload = payload +
  chatId :: jsstring

definition send_message ::
  "server \<Rightarrow> jsstring \<Rightarrow> 'a room_payload_scheme \<Rightarrow> env \<Rightarrow> server \<times> action list" where
  "send_message s sid p e =
     (case map_of (connectedUsers s) sid of
        None \<Rightarrow> (s, [])
      | Some user \<Rightarrow>
          if text_in p = [] \<or> trim (text_in p) = [] \<or> 500 < length (text_in p) then (s, [])
          else
            (case insert_message (pool s) e (roomId p) (uid user) (trim (text_in p)) of
               (Inl err, d) \<Rightarrow> (s\<lparr>pool := d\<rparr>, [Deliver sid (MessageError err)])
             | (Inr row, d) \<Rightarrow>
                 (s\<lparr>pool := d\<rparr>,
                  Stored row #
                  io_to_emit s (room_channel (roomId p))
                    (NewMessage \<lparr>w_id = m_id row, w_chan = roomId p, w_user_id = uid user,
                       w_name = name user, w_photo = photo user, w_premium = premium user,
                       w_text = m_text row, w_created_at = m_created_at row\<rparr>))))"

definition send_dm ::
  "server \<Rightarrow> jsstring \<Rightarrow> 'a dm_payload_scheme \<Rightarrow> env \<Rightarrow> server \<times> action list" where
  "send_dm s sid p e =
     (case map_of (connectedUsers s) sid of
        None \<Rightarrow> (s, [])
      | Some user \<Rightarrow>
          if text_in p = [] \<or> trim (text_in p) = [] \<or> 500 < length (text_in p) then (s, [])
          else if \<not> includes_js (split (chatId p) underscore) (uid user) then (s, [])
          else
            (case insert_dm_message (pool s) e (chatId p) (uid user) (trim (text_in p)) of
               (Inl err, d) \<Rightarrow> (s\<lparr>pool := d\<rparr>, [Deliver sid (MessageError err)])
             | (Inr row, d) \<Rightarrow>
                 (s\<lparr>pool := d\<rparr>,
                  StoredDm row #
                  io_to_emit s (dm_channel (chatId p))
                    (NewDm \<lparr>w_id = m_id row, w_chan = chatId p, w_user_id = uid user,
                       w_name = name user, w_photo = photo user, w_premium = premium user,
                       w_text = m_text row, w_created_at = m_created_at row\<rparr>))))"

section \<open>Session tokens\<close>

text \<open>
  A token of \<open>jsonwebtoken\<close>, seen through what \<open>jwt.verify\<close> reads: the \<open>uid\<close> claim, the
  expiry, and whether the signature is the one \<open>JWT_SECRET\<close> gives. \<open>jwt.sign\<close> with
  \<open>expiresIn: "30d"\<close> sets the expiry 2592000 seconds ahead; \<open>jwt.verify\<close> throws on a bad
  signature and once the clock has reached the expiry.
\<close>

record token =
  tok_uid :: jsstring
  tok_exp :: nat
  tok_signed :: bool

definition jwt_sign :: "jsstring \<Rightarrow> nat \<Rightarrow> token" where
  "jwt_sign u t = \<lparr>tok_uid = u, tok_exp = t + 2592000, tok_signed = True\<rparr>"

definition jwt_verify :: "token \<Rightarrow> nat \<Rightarrow> jsstring option" where
  "jwt_verify tok t = (if tok_signed tok \<and> t < tok_exp tok then Some (tok_uid tok) else None)"

section \<open>Connection events\<close>

text \<open>\<open>UPDATE users SET ... WHERE id = $1\<close>: changes the row when there is one.\<close>

definition update_user :: "database \<Rightarrow> jsstring \<Rightarrow> (user_row \<Rightarrow> user_row) \<Rightarrow> database" where
  "update_user d u f =
     (case users d u of None \<Rightarrow> d | Some r \<Rightarrow> d\<lparr>users := (users d)(u \<mapsto> f r)\<rparr>)"

text \<open>
  \<open>pool.query("UPDATE users SET last_seen = NOW() WHERE id = $1", ...).catch(() => {})\<close>:
  not awaited, and a rejection is swallowed.
\<close>

definition touch_last_seen :: "database \<Rightarrow> env \<Rightarrow> jsstring \<Rightarrow> database" where
  "touch_last_seen d e u =
     (case bg_fault e of
        Some err \<Rightarrow> d
      | None \<Rightarrow> update_user d u (\<lambda>r. r\<lparr>u_last_seen := now e\<rparr>))"

text \<open>A new connection: socket.io registers the socket and puts it in its own room.\<close>

definition connection :: "server \<Rightarrow> jsstring \<Rightarrow> server" where
  "connection s sid =
     (if sid \<in> set (sockets s) then s
      else s\<lparr>sockets := sockets s @ [sid], rooms := (rooms s)(sid := {sid})\<rparr>)"

text \<open>
  \<open>socket.on("auth")\<close>, in its three moments. The handler verifies the token and sends
  the SELECT; it returns there. Later the store answers the SELECT with the rows of that
  moment, or rejects it. Later again the \<open>then\<close> of the promise runs on those rows. Other
  handlers run in between, and the socket may have closed. The promise has a \<open>then\<close> and
  no \<open>catch\<close>: when the SELECT is rejected nothing is emitted and nothing is stored.
\<close>

definition auth :: "server \<Rightarrow> jsstring \<Rightarrow> token \<Rightarrow> env \<Rightarrow> server \<times> action list" where
  "auth s sid tok e =
     (case jwt_verify tok (now e) of
        None \<Rightarrow> (s, [Deliver sid (AuthError (js ''Token invalido''))])
      | Some u \<Rightarrow>
          (s\<lparr>in_flight :=
               (in_flight s)(sid := in_flight s sid @ [\<lparr>p_uid = u, p_answer = None\<rparr>])\<rparr>,
           []))"

text \<open>
  The store settles the \<open>n\<close>-th lookup in flight for the socket \<open>sid\<close>:
  \<open>SELECT * FROM users WHERE id = $1\<close> on the store as it is then.
\<close>

definition answer_auth :: "server \<Rightarrow> jsstring \<Rightarrow> nat \<Rightarrow> env \<Rightarrow> server \<times> action list" where
  "answer_auth s sid n e =
     (if n < length (in_flight s sid) \<and> p_answer (in_flight s sid ! n) = None then
        (case fault e of
           Some err \<Rightarrow>
             (s\<lparr>in_flight :=
                  (in_flight s)(sid := take n (in_flight s sid) @ drop (Suc n) (in_flight s sid))\<rparr>,
              [Unhandled err])
         | None \<Rightarrow>
             (s\<lparr>in_flight :=
                  (in_flight s)(sid := (in_flight s sid)
                     [n := (in_flight s sid ! n)
                        \<lparr>p_answer := Some (users (pool s) (p_uid (in_flight s sid ! n)))\<rparr>])\<rparr>,
              []))
      else (s, []))"

text \<open>
  The \<open>then\<close> of a lookup of the socket \<open>sid\<close> for the identity \<open>u\<close>, run on the rows the
  store gave: it reads \<open>is_banned\<close> from those rows, not from the store.
\<close>

definition auth_then ::
  "server \<Rightarrow> jsstring \<Rightarrow> jsstring \<Rightarrow> user_row option \<Rightarrow> env \<Rightarrow> server \<times> action list" where
  "auth_then s sid u rows e =
     (case rows of
        None \<Rightarrow> (s, socket_emit s sid (AuthError (js ''Usuario no encontrado'')))
      | Some user \<Rightarrow>
          if u_is_banned user then (s, socket_emit s sid Banned)
          else
            (s\<lparr>connectedUsers :=
                 AList.update sid
                   \<lparr>uid = u, name = u_name user, photo = u_photo user,
                      premium = u_premium user\<rparr>
                   (connectedUsers s),
               pool := touch_last_seen (pool s) e u\<rparr>,
             socket_emit s sid AuthOk))"

text \<open>The \<open>then\<close> of the \<open>n\<close>-th lookup in flight for the socket \<open>sid\<close> runs, once it is settled.\<close>

definition resume_auth :: "server \<Rightarrow> jsstring \<Rightarrow> nat \<Rightarrow> env \<Rightarrow> server \<times> action list" where
  "resume_auth s sid n e =
     (if n < length (in_flight s sid) then
        (case p_answer (in_flight s sid ! n) of
           None \<Rightarrow> (s, [])
         | Some rows \<Rightarrow>
             auth_then
               (s\<lparr>in_flight :=
                    (in_flight s)(sid := take n (in_flight s sid) @ drop (Suc n) (in_flight s sid))\<rparr>)
               sid (p_uid (in_flight s sid ! n)) rows e)
      else (s, []))"

text \<open>\<open>socket.rooms.forEach(r => { if (r !== socket.id) socket.leave(r); })\<close>\<close>

definition leave_others :: "jsstring \<Rightarrow> jsstring set \<Rightarrow> jsstring set" where
  "leave_others sid rs = rs - {r \<in> rs. r \<noteq> sid}"

definition join_room :: "server \<Rightarrow> jsstring \<Rightarrow> jsstring \<Rightarrow> server" where
  "join_room s sid room =
     s\<lparr>rooms := (rooms s)(sid := insert (room_channel room) (leave_others sid (rooms s sid)))\<rparr>"

definition join_dm :: "server \<Rightarrow> jsstring \<Rightarrow> jsstring \<Rightarrow> server" where
  "join_dm s sid chat =
     (case map_of (connectedUsers s) sid of
        None \<Rightarrow> s
      | Some user \<Rightarrow>
          if \<not> includes_js (split chat underscore) (uid user) then s
          else
            s\<lparr>rooms :=
                (rooms s)(sid := insert (dm_channel chat) (leave_others sid (rooms s sid)))\<rparr>)"

text \<open>
  A socket that closes leaves all its rooms and the server's table of sockets; then the
  \<open>"disconnect"\<close> handler runs.
\<close>

definition disconnect :: "server \<Rightarrow> jsstring \<Rightarrow> env \<Rightarrow> server" where
  "disconnect s sid e =
     (let s1 = s\<lparr>sockets := removeAll sid (sockets s), rooms := (rooms s)(sid := {})\<rparr> in
      case map_of (connectedUsers s1) sid of
        None \<Rightarrow> s1
      | Some user \<Rightarrow>
          s1\<lparr>pool := touch_last_seen (pool s1) e (uid user),
              connectedUsers := AList.delete sid (connectedUsers s1)\<rparr>)"

section \<open>Requests and responses\<close>

text \<open>
  The payload that \<open>verifyGoogleToken\<close> returns; a field that Google leaves out is \<open>None\<close>.
\<close>

record google_payload =
  sub :: jsstring
  g_name :: "jsstring option"
  picture :: "jsstring option"
  g_email :: "jsstring option"

record history_row =
  h_id :: nat
  h_chan :: jsstring
  h_user_id :: jsstring
  h_text :: jsstring
  h_created_at :: nat
  h_name :: jsstring
  h_photo :: "jsstring option"
  h_premium :: bool

record friend_json =
  f_id :: jsstring
  f_name :: jsstring
  f_photo :: "jsstring option"
  f_premium :: bool
  f_last_seen :: nat

datatype body =
    ErrorBody jsstring
  | OkBody
  | LoginBody token jsstring user_row
  | ProfileBody jsstring user_row bool
  | MessagesBody "history_row list"
  | FriendsBody "friend_json list"
  | LookupBody jsstring jsstring "jsstring option"

record response =
  status :: nat
  body :: body

text \<open>
  A request carries what the route reads: the bearer token of the \<open>Authorization\<close> header
  (\<open>None\<close> when the header is missing or does not start with \<open>Bearer\<close>), the route
  parameter and the body field. The login carries what the external verifier answers for
  its \<open>idToken\<close>: the error message it throws, or the payload.
  The routes \<open>GET /\<close> and \<open>GET /api/debug-env\<close> read no state and always answer 200;
  they are left out.
\<close>

datatype request =
    AuthGoogle "jsstring option" "jsstring + google_payload"
  | GetMe "token option"
  | PutName "token option" "jsstring option"
  | PutPhoto "token option" "jsstring option"
  | GetRoomMessages "token option" jsstring
  | GetDmMessages "token option" jsstring
  | GetFriends "token option"
  | LookupUser "token option" jsstring
  | AddFriend "token option" jsstring
  | AdminBan "token option" jsstring
  | AdminUnban "token option" jsstring
  | AdminDeleteMessage "token option" nat

type_synonym http_result = "response \<times> server \<times> action list"

definition json_error :: "nat \<Rightarrow> jsstring \<Rightarrow> response" where
  "json_error code msg = \<lparr>status = code, body = ErrorBody msg\<rparr>"

definition json_ok :: "body \<Rightarrow> response" where
  "json_ok b = \<lparr>status = 200, body = b\<rparr>"

definition authMiddleware :: "token option \<Rightarrow> nat \<Rightarrow> response + jsstring" where
  "authMiddleware bearer t =
     (case bearer of
        None \<Rightarrow> Inl (json_error 401 (js ''No autorizado''))
      | Some tok \<Rightarrow>
          (case jwt_verify tok t of
             None \<Rightarrow> Inl (json_error 401 (js ''Token invalido o expirado''))
           | Some u \<Rightarrow> Inr u))"

definition adminMiddleware :: "server \<Rightarrow> jsstring \<Rightarrow> response option" where
  "adminMiddleware s u =
     (if ADMIN_UID s = [] \<or> u \<noteq> ADMIN_UID s then Some (json_error 403 (js ''No autorizado''))
      else None)"

definition with_auth ::
  "server \<Rightarrow> token option \<Rightarrow> env \<Rightarrow> (jsstring \<Rightarrow> http_result) \<Rightarrow> http_result" where
  "with_auth s bearer e handler =
     (case authMiddleware bearer (now e) of
        Inl r \<Rightarrow> (r, s, [])
      | Inr u \<Rightarrow> handler u)"

definition with_admin ::
  "server \<Rightarrow> token option \<Rightarrow> env \<Rightarrow> (jsstring \<Rightarrow> http_result) \<Rightarrow> http_result" where
  "with_admin s bearer e handler =
     with_auth s bearer e
       (\<lambda>u. case adminMiddleware s u of Some r \<Rightarrow> (r, s, []) | None \<Rightarrow> handler u)"

text \<open>\<open>x || d\<close> for a string that may be missing: the default when missing or empty.\<close>

definition or_default :: "jsstring option \<Rightarrow> jsstring \<Rightarrow> jsstring" where
  "or_default x d = (case x of None \<Rightarrow> d | Some v \<Rightarrow> if v = [] then d else v)"

definition coalesce :: "'a option \<Rightarrow> 'a option \<Rightarrow> 'a option" where
  "coalesce a b = (case a of Some x \<Rightarrow> Some x | None \<Rightarrow> b)"

text \<open>
  \<open>INSERT INTO users (id, name, photo, email, last_seen) VALUES ($1, $2, $3, $4, NOW())
  ON CONFLICT (id) DO UPDATE SET last_seen = NOW(),
  photo = COALESCE(EXCLUDED.photo, users.photo) RETURNING *\<close>
\<close>

definition upsert_user ::
  "database \<Rightarrow> env \<Rightarrow> jsstring \<Rightarrow> jsstring \<Rightarrow> jsstring \<Rightarrow> jsstring \<Rightarrow> user_row \<times> database" where
  "upsert_user d e u nm ph em =
     (let row =
        (case users d u of
           None \<Rightarrow>
             \<lparr>u_name = nm, u_photo = Some ph, u_email = Some em, u_premium = False,
                u_is_banned = False, u_last_seen = now e\<rparr>
         | Some r \<Rightarrow> r\<lparr>u_last_seen := now e, u_photo := coalesce (Some ph) (u_photo r)\<rparr>)
      in (row, d\<lparr>users := (users d)(u \<mapsto> row)\<rparr>))"

text \<open>\<open>POST /api/auth/google\<close>\<close>

definition auth_google ::
  "server \<Rightarrow> jsstring option \<Rightarrow> jsstring + google_payload \<Rightarrow> env \<Rightarrow> http_result" where
  "auth_google s idToken verdict e =
     (if idToken = None \<or> idToken = Some [] then
        (json_error 400 (js ''idToken requerido''), s, [])
      else
        (case verdict of
           Inl msg \<Rightarrow> (json_error 401 msg, s, [])
         | Inr gUser \<Rightarrow>
             (case fault e of
                Some err \<Rightarrow> (json_error 401 err, s, [])
              | None \<Rightarrow>
                  (case upsert_user (pool s) e (sub gUser)
                          (or_default (g_name gUser) (js ''Anonymous Therian''))
                          (or_default (picture gUser) [])
                          (or_default (g_email gUser) []) of
                     (user, d) \<Rightarrow>
                       if u_is_banned user then
                         (json_error 403 (js ''Tu cuenta ha sido baneada de Therians.''),
                          s\<lparr>pool := d\<rparr>, [])
                       else
                         (json_ok (LoginBody (jwt_sign (sub gUser) (now e)) (sub gUser) user),
                          s\<lparr>pool := d\<rparr>, [])))))"

text \<open>\<open>GET /api/users/me\<close>\<close>

definition get_me :: "server \<Rightarrow> token option \<Rightarrow> env \<Rightarrow> http_result" where
  "get_me s bearer e =
     with_auth s bearer e (\<lambda>u.
       case fault e of
         Some err \<Rightarrow> (json_error 500 err, s, [])
       | None \<Rightarrow>
           (case users (pool s) u of
              None \<Rightarrow> (json_error 404 (js ''Usuario no encontrado''), s, [])
            | Some user \<Rightarrow>
                (json_ok (ProfileBody u user (ADMIN_UID s \<noteq> [] \<and> u = ADMIN_UID s)), s, [])))"

text \<open>\<open>PUT /api/users/me/name\<close> and \<open>PUT /api/users/me/photo\<close>\<close>

definition put_name :: "server \<Rightarrow> token option \<Rightarrow> jsstring option \<Rightarrow> env \<Rightarrow> http_result" where
  "put_name s bearer nm e =
     with_auth s bearer e (\<lambda>u.
       case nm of
         None \<Rightarrow> (json_error 400 (js ''Nombre invalido''), s, [])
       | Some n \<Rightarrow>
           if n = [] \<or> 40 < length n then (json_error 400 (js ''Nombre invalido''), s, [])
           else
             (case fault e of
                Some err \<Rightarrow> (json_error 500 err, s, [])
              | None \<Rightarrow>
                  (json_ok OkBody,
                   s\<lparr>pool := update_user (pool s) u (\<lambda>r. r\<lparr>u_name := n\<rparr>)\<rparr>, [])))"

definition put_photo :: "server \<Rightarrow> token option \<Rightarrow> jsstring option \<Rightarrow> env \<Rightarrow> http_result" where
  "put_photo s bearer ph e =
     with_auth s bearer e (\<lambda>u.
       case ph of
         None \<Rightarrow> (json_error 400 (js ''Foto requerida''), s, [])
       | Some p \<Rightarrow>
           if p = [] then (json_error 400 (js ''Foto requerida''), s, [])
           else
             (case fault e of
                Some err \<Rightarrow> (json_error 500 err, s, [])
              | None \<Rightarrow>
                  (json_ok OkBody,
                   s\<lparr>pool := update_user (pool s) u (\<lambda>r. r\<lparr>u_photo := Some p\<rparr>)\<rparr>, [])))"

text \<open>
  The two history queries: \<open>SELECT ... FROM messages m JOIN users u ON u.id = m.user_id
  WHERE m.room_id = $1 ORDER BY m.created_at ASC LIMIT 80\<close>, and the same on
  \<open>dm_messages\<close> by \<open>chat_id\<close>. The rows of the channel are sorted by ascending
  \<open>created_at\<close> and the first 80 of that order are returned. SQL leaves the order of rows
  with equal \<open>created_at\<close> open; the model keeps them in the order of the table.
\<close>

definition joined_row :: "database \<Rightarrow> msg_row \<Rightarrow> history_row option" where
  "joined_row d m =
     (case users d (m_user_id m) of
        None \<Rightarrow> None
      | Some u \<Rightarrow>
          Some \<lparr>h_id = m_id m, h_chan = m_chan m, h_user_id = m_user_id m, h_text = m_text m,
                 h_created_at = m_created_at m, h_name = u_name u, h_photo = u_photo u,
                 h_premium = u_premium u\<rparr>)"

definition select_history :: "database \<Rightarrow> msg_row list \<Rightarrow> jsstring \<Rightarrow> history_row list" where
  "select_history d table chan =
     take 80 (sort_key h_created_at
       (List.map_filter (joined_row d) (filter (\<lambda>m. m_chan m = chan) table)))"

text \<open>\<open>GET /api/rooms/:roomId/messages\<close> and \<open>GET /api/dms/:chatId/messages\<close>\<close>

definition get_room_messages :: "server \<Rightarrow> token option \<Rightarrow> jsstring \<Rightarrow> env \<Rightarrow> http_result" where
  "get_room_messages s bearer room e =
     with_auth s bearer e (\<lambda>u.
       case fault e of
         Some err \<Rightarrow> (json_error 500 err, s, [])
       | None \<Rightarrow>
           (json_ok (MessagesBody (select_history (pool s) (messages (pool s)) room)), s, []))"

definition get_dm_messages :: "server \<Rightarrow> token option \<Rightarrow> jsstring \<Rightarrow> env \<Rightarrow> http_result" where
  "get_dm_messages s bearer chat e =
     with_auth s bearer e (\<lambda>u.
       if \<not> includes_js (split chat underscore) u then
         (json_error 403 (js ''Acceso denegado''), s, [])
       else
         (case fault e of
            Some err \<Rightarrow> (json_error 500 err, s, [])
          | None \<Rightarrow>
              (json_ok (MessagesBody (select_history (pool s) (dm_messages (pool s)) chat)),
               s, [])))"

text \<open>\<open>GET /api/friends\<close>, \<open>GET /api/users/lookup/:uid\<close>, \<open>POST /api/friends/:friendId\<close>\<close>

definition friend_row :: "database \<Rightarrow> jsstring \<Rightarrow> jsstring \<times> jsstring \<Rightarrow> friend_json option" where
  "friend_row d u f =
     (if fst f \<noteq> u then None
      else
        (case users d (snd f) of
           None \<Rightarrow> None
         | Some r \<Rightarrow>
             Some \<lparr>f_id = snd f, f_name = u_name r, f_photo = u_photo r,
                    f_premium = u_premium r, f_last_seen = u_last_seen r\<rparr>))"

definition get_friends :: "server \<Rightarrow> token option \<Rightarrow> env \<Rightarrow> http_result" where
  "get_friends s bearer e =
     with_auth s bearer e (\<lambda>u.
       case fault e of
         Some err \<Rightarrow> (json_error 500 err, s, [])
       | None \<Rightarrow>
           (json_ok (FriendsBody (List.map_filter (friend_row (pool s) u) (friends (pool s)))),
            s, []))"

definition lookup_user :: "server \<Rightarrow> token option \<Rightarrow> jsstring \<Rightarrow> env \<Rightarrow> http_result" where
  "lookup_user s bearer target e =
     with_auth s bearer e (\<lambda>u.
       case fault e of
         Some err \<Rightarrow> (json_error 500 err, s, [])
       | None \<Rightarrow>
           (case users (pool s) target of
              None \<Rightarrow> (json_error 404 (js ''Usuario no encontrado''), s, [])
            | Some r \<Rightarrow> (json_ok (LookupBody target (u_name r) (u_photo r)), s, [])))"

text \<open>
  \<open>INSERT INTO friends (user_id, friend_id) VALUES ($1, $2), ($2, $1) ON CONFLICT DO
  NOTHING\<close>: one statement, both directions; both columns reference \<open>users(id)\<close>.
\<close>

definition insert_if_new :: "'a \<Rightarrow> 'a list \<Rightarrow> 'a list" where
  "insert_if_new x xs = (if x \<in> set xs then xs else xs @ [x])"

definition add_friend :: "server \<Rightarrow> token option \<Rightarrow> jsstring \<Rightarrow> env \<Rightarrow> http_result" where
  "add_friend s bearer friendId e =
     with_auth s bearer e (\<lambda>u.
       if friendId = u then (json_error 400 (js ''No puedes agregarte a ti mismo''), s, [])
       else
         (case fault e of
            Some err \<Rightarrow> (json_error 500 err, s, [])
          | None \<Rightarrow>
              if users (pool s) u = None \<or> users (pool s) friendId = None then
                (json_error 500 fk_violation, s, [])
              else
                (json_ok OkBody,
                 s\<lparr>pool := (pool s)\<lparr>friends :=
                      insert_if_new (friendId, u) (insert_if_new (u, friendId) (friends (pool s)))\<rparr>\<rparr>,
                 [])))"

section \<open>Moderation\<close>

text \<open>
  \<open>POST /api/admin/ban/:uid\<close>. After the UPDATE, \<open>connectedUsers.forEach\<close> visits the
  entries in order; for an entry of the banned identity it emits \<open>"banned"\<close> to the room
  named by the socket id and, when the socket is live, calls \<open>s.disconnect(true)\<close>, which
  runs the disconnect handler before the loop goes on.
\<close>

fun ban_loop ::
  "server \<Rightarrow> env \<Rightarrow> jsstring \<Rightarrow> (jsstring \<times> session) list \<Rightarrow> server \<times> action list" where
  "ban_loop s e target [] = (s, [])"
| "ban_loop s e target ((socketId, u) # rest) =
     (if uid u = target then
        (case ban_loop
                (if socketId \<in> set (sockets s) then disconnect s socketId e else s)
                e target rest of
           (s2, acts2) \<Rightarrow> (s2, io_to_emit s socketId Banned @ acts2))
      else ban_loop s e target rest)"

definition admin_ban :: "server \<Rightarrow> token option \<Rightarrow> jsstring \<Rightarrow> env \<Rightarrow> http_result" where
  "admin_ban s bearer target e =
     with_admin s bearer e (\<lambda>u.
       case fault e of
         Some err \<Rightarrow> (json_error 500 err, s, [])
       | None \<Rightarrow>
           (case ban_loop
                   (s\<lparr>pool := update_user (pool s) target (\<lambda>r. r\<lparr>u_is_banned := True\<rparr>)\<rparr>)
                   e target (connectedUsers s) of
              (s2, acts) \<Rightarrow> (json_ok OkBody, s2, acts)))"

definition admin_unban :: "server \<Rightarrow> token option \<Rightarrow> jsstring \<Rightarrow> env \<Rightarrow> http_result" where
  "admin_unban s bearer target e =
     with_admin s bearer e (\<lambda>u.
       case fault e of
         Some err \<Rightarrow> (json_error 500 err, s, [])
       | None \<Rightarrow>
           (json_ok OkBody,
            s\<lparr>pool := update_user (pool s) target (\<lambda>r. r\<lparr>u_is_banned := False\<rparr>)\<rparr>, []))"

text \<open>
  \<open>DELETE FROM messages WHERE id = $1 RETURNING room_id\<close>, then \<open>"message_deleted"\<close> to
  the room of the first deleted row.
\<close>

definition admin_delete_message :: "server \<Rightarrow> token option \<Rightarrow> nat \<Rightarrow> env \<Rightarrow> http_result" where
  "admin_delete_message s bearer msgId e =
     with_admin s bearer e (\<lambda>u.
       case fault e of
         Some err \<Rightarrow> (json_error 500 err, s, [])
       | None \<Rightarrow>
           (json_ok OkBody,
            s\<lparr>pool := (pool s)\<lparr>messages := filter (\<lambda>m. m_id m \<noteq> msgId) (messages (pool s))\<rparr>\<rparr>,
            (case filter (\<lambda>m. m_id m = msgId) (messages (pool s)) of
               [] \<Rightarrow> []
             | m # ms \<Rightarrow> io_to_emit s (room_channel (m_chan m)) (MessageDeleted msgId))))"

definition http :: "server \<Rightarrow> request \<Rightarrow> env \<Rightarrow> http_result" where
  "http s req e =
     (case req of
        AuthGoogle idToken verdict \<Rightarrow> auth_google s idToken verdict e
      | GetMe bearer \<Rightarrow> get_me s bearer e
      | PutName bearer nm \<Rightarrow> put_name s bearer nm e
      | PutPhoto bearer ph \<Rightarrow> put_photo s bearer ph e
      | GetRoomMessages bearer room \<Rightarrow> get_room_messages s bearer room e
      | GetDmMessages bearer chat \<Rightarrow> get_dm_messages s bearer chat e
      | GetFriends bearer \<Rightarrow> get_friends s bearer e
      | LookupUser bearer target \<Rightarrow> lookup_user s bearer target e
      | AddFriend bearer friendId \<Rightarrow> add_friend s bearer friendId e
      | AdminBan bearer target \<Rightarrow> admin_ban s bearer target e
      | AdminUnban bearer target \<Rightarrow> admin_unban s bearer target e
      | AdminDeleteMessage bearer msgId \<Rightarrow> admin_delete_message s bearer msgId e)"

section \<open>Runs of the server\<close>

text \<open>
  One step is one handler run to its next return with the environment it meets. The
  \<open>"auth"\<close> handler returns when it has sent its lookup; the store's answer to the lookup
  (\<open>AuthAnswer\<close>) and the \<open>then\<close> of the lookup (\<open>AuthThen\<close>) are steps of their own that
  come after any number of other steps, also when the socket has closed meanwhile. The
  handlers that await their query are run to their end. A connection event reaches its
  handler only on a live socket.
\<close>

datatype event =
    Connection jsstring
  | Auth jsstring token
  | AuthAnswer jsstring nat
  | AuthThen jsstring nat
  | JoinRoom jsstring jsstring
  | JoinDm jsstring jsstring
  | SendMessage jsstring room_payload
  | SendDm jsstring dm_payload
  | Disconnect jsstring
  | Http request

definition on_socket :: "server \<Rightarrow> jsstring \<Rightarrow> server \<times> action list \<Rightarrow> server \<times> action list" where
  "on_socket s sid r = (if sid \<in> set (sockets s) then r else (s, []))"

definition step :: "server \<Rightarrow> event \<Rightarrow> env \<Rightarrow> server \<times> action list" where
  "step s ev e =
     (case ev of
        Connection sid \<Rightarrow> (connection s sid, [])
      | Auth sid tok \<Rightarrow> on_socket s sid (auth s sid tok e)
      | AuthAnswer sid n \<Rightarrow> answer_auth s sid n e
      | AuthThen sid n \<Rightarrow> resume_auth s sid n e
      | JoinRoom sid room \<Rightarrow> on_socket s sid (join_room s sid room, [])
      | JoinDm sid chat \<Rightarrow> on_socket s sid (join_dm s sid chat, [])
      | SendMessage sid p \<Rightarrow> on_socket s sid (send_message s sid p e)
      | SendDm sid p \<Rightarrow> on_socket s sid (send_dm s sid p e)
      | Disconnect sid \<Rightarrow> on_socket s sid (disconnect s sid e, [])
      | Http req \<Rightarrow> (case http s req e of (r, s', acts) \<Rightarrow> (s', acts)))"

fun run :: "server \<Rightarrow> (event \<times> env) list \<Rightarrow> server" where
  "run s [] = s"
| "run s ((ev, e) # rest) = run (fst (step s ev e)) rest"

definition init_server :: "jsstring \<Rightarrow> database \<Rightarrow> server" where
  "init_server admin d =
     \<lparr>pool = d, connectedUsers = [], sockets = [], rooms = (\<lambda>k. {}),
        in_flight = (\<lambda>k. []), ADMIN_UID = admin\<rparr>"

section \<open>Predicates on texts, states and events\<close>

text \<open>
  The texts that pass the test of both send handlers,
  \<open>!text || !text.trim() || text.length > 500\<close>.
\<close>

definition valid_text :: "jsstring \<Rightarrow> bool" where
  "valid_text t \<longleftrightarrow> \<not> (t = [] \<or> trim t = [] \<or> 500 < length t)"

text \<open>
  The channels of a socket are the rooms it is in other than the room of its own id.
  The state keeps at most one of them for every socket.
\<close>

definition channels_of :: "server \<Rightarrow> jsstring \<Rightarrow> jsstring set" where
  "channels_of s k = rooms s k - {k}"

definition at_most_one_channel :: "server \<Rightarrow> bool" where
  "at_most_one_channel s \<longleftrightarrow> (\<forall>k. finite (rooms s k) \<and> card (channels_of s k) \<le> 1)"

text \<open>The events that are not an authentication, a join or a disconnect of the socket \<open>k\<close>.\<close>

fun leaves_alone :: "jsstring \<Rightarrow> event \<Rightarrow> bool" where
  "leaves_alone k (Auth k' tok) = (k' \<noteq> k)"
| "leaves_alone k (AuthThen k' n) = (k' \<noteq> k)"
| "leaves_alone k (JoinRoom k' room) = (k' \<noteq> k)"
| "leaves_alone k (JoinDm k' chat) = (k' \<noteq> k)"
| "leaves_alone k (Disconnect k') = (k' \<noteq> k)"
| "leaves_alone k ev = True"

text \<open>
  The identity \<open>t\<close> has a row in \<open>users\<close> and the row's \<open>is_banned\<close> is set.
\<close>

definition banned_in :: "database \<Rightarrow> jsstring \<Rightarrow> bool" where
  "banned_in d t = (case users d t of None \<Rightarrow> False | Some row \<Rightarrow> u_is_banned row)"





section \<open>A small server to run the handlers on\<close>

text \<open>
  Three identities in the store, \<open>mallory\<close> banned; \<open>root\<close> is the administrator. Three
  live sockets: \<open>k1\<close> is alice's and has joined the direct channel \<open>alice_bob\<close>, \<open>k2\<close> is
  bob's and has joined the room \<open>lounge\<close>, \<open>k3\<close> has not authenticated.
\<close>

definition demo_row :: "string \<Rightarrow> bool \<Rightarrow> user_row" where
  "demo_row n banned =
     \<lparr>u_name = js n, u_photo = Some (js ''p.png''), u_email = Some (js ''m@x.org''),
        u_premium = False, u_is_banned = banned, u_last_seen = 1\<rparr>"

definition demo_db :: database where
  "demo_db =
     \<lparr>users = [js ''alice'' \<mapsto> demo_row ''Alice'' False, js ''bob'' \<mapsto> demo_row ''Bob'' False,
                js ''mallory'' \<mapsto> demo_row ''Mallory'' True, js ''root'' \<mapsto> demo_row ''Root'' False],
        messages = [], dm_messages = [], friends = [],
        messages_id_seq = 0, dm_messages_id_seq = 0\<rparr>"

definition demo_session :: "string \<Rightarrow> string \<Rightarrow> session" where
  "demo_session u n = \<lparr>uid = js u, name = js n, photo = Some (js ''p.png''), premium = False\<rparr>"

definition demo_server :: server where
  "demo_server =
     \<lparr>pool = demo_db,
        connectedUsers =
          [(js ''k1'', demo_session ''alice'' ''Alice''), (js ''k2'', demo_session ''bob'' ''Bob'')],
        sockets = [js ''k1'', js ''k2'', js ''k3''],
        rooms = (\<lambda>k. {})(js ''k1'' := {js ''k1'', js ''dm_alice_bob''},
                            js ''k2'' := {js ''k2'', js ''room_lounge''},
                            js ''k3'' := {js ''k3''}),
        in_flight = (\<lambda>k. []),
        ADMIN_UID = js ''root''\<rparr>"

definition quiet :: "nat \<Rightarrow> env" where
  "quiet t = \<lparr>now = t, fault = None, bg_fault = None\<rparr>"

definition failing :: "nat \<Rightarrow> env" where
  "failing t = \<lparr>now = t, fault = Some (js ''connection terminated''), bg_fault = None\<rparr>"

text \<open>A client that adds an id and a timestamp of its own to the payload.\<close>

record forged_room_payload = room_payload +
  claimed_id :: nat
  claimed_created_at :: nat

record forged_dm_payload = dm_payload +
  claimed_dm_id :: nat
  claimed_dm_created_at :: nat

text \<open>
  A store in which the room \<open>lounge\<close> holds 81 messages, written at the times 1 to 81.
\<close>

definition lounge_row :: "nat \<Rightarrow> msg_row" where
  "lounge_row i =
     \<lparr>m_id = i, m_chan = js ''lounge'', m_user_id = js ''alice'', m_text = js ''hi'',
        m_created_at = i\<rparr>"

definition busy_db :: database where
  "busy_db = demo_db\<lparr>messages := map lounge_row [1..<82], messages_id_seq := 81\<rparr>"

definition busy_server :: server where
  "busy_server = demo_server\<lparr>pool := busy_db\<rparr>"

text \<open>The row of the history query for the message written at time \<open>i\<close>.\<close>

definition lounge_history_row :: "nat \<Rightarrow> history_row" where
  "lounge_history_row i =
     \<lparr>h_id = i, h_chan = js ''lounge'', h_user_id = js ''alice'', h_text = js ''hi'',
        h_created_at = i, h_name = js ''Alice'', h_photo = Some (js ''p.png''),
        h_premium = False\<rparr>"

text \<open>A login of the banned identity, with a credential that Google accepts.\<close>

definition mallory_login :: request where
  "mallory_login =
     AuthGoogle (Some (js ''g-token''))
       (Inr \<lparr>sub = js ''mallory'', g_name = Some (js ''Mallory''),
              picture = Some (js ''new.png''), g_email = Some (js ''m@x.org'')\<rparr>)"



definition ban_bob :: request where
  "ban_bob = AdminBan (Some (jwt_sign (js ''root'') 0)) (js ''bob'')"



text \<open>
  A run in which bob's lookup is in flight: the store has answered it, its \<open>then\<close> has not
  run.
\<close>

definition bob_asking :: server where
  "bob_asking =
     run (init_server (js ''root'') demo_db)
       [(Connection (js ''k2''), quiet 1), (Auth (js ''k2'') (jwt_sign (js ''bob'') 0), quiet 2),
        (AuthAnswer (js ''k2'') 0, quiet 2)]"



section \<open>Properties of sending\<close>

lemmas demo_defs =
  demo_server_def demo_db_def demo_session_def demo_row_def quiet_def failing_def js_def
  underscore_def room_channel_def dm_channel_def

lemmas handler_defs =
  send_message_def send_dm_def insert_message_def insert_dm_message_def trim_def is_ws_def
  is_high_def is_low_def Let_def io_to_emit_def membersOf_def includes_js_def split_def
  pg_text_def

lemma length_trim: "length (trim s) \<le> length s"
proof -
  have "length (dropWhile is_ws (rev (dropWhile is_ws s))) \<le> length (rev (dropWhile is_ws s))"
    by (rule length_dropWhile_le)
  also have "\<dots> \<le> length s"
    by (simp add: length_dropWhile_le)
  finally show ?thesis by (simp add: trim_def)
qed

lemma char_length_le: "char_length s \<le> length s"
  by (induction s rule: char_length.induct) auto

lemma length_utf8_roundtrip: "length (utf8_roundtrip t) = length t"
  by (induction t rule: utf8_roundtrip.induct) auto

lemma utf8_roundtrip_Nil: "utf8_roundtrip t = [] \<longleftrightarrow> t = []"
  using length_utf8_roundtrip[of t] by (metis length_0_conv)

lemma well_formed_roundtrip: "well_formed t \<Longrightarrow> utf8_roundtrip t = t"
  by (induction t rule: utf8_roundtrip.induct) (auto split: if_splits)

lemma insert_message_cases:
  "insert_message d e room u txt = (r, d') \<Longrightarrow>
     dm_messages d' = dm_messages d \<and> users d' = users d \<and> friends d' = friends d \<and>
     (case r of Inl err \<Rightarrow> messages d' = messages d
      | Inr row \<Rightarrow> messages d' = messages d @ [row] \<and> fault e = None \<and>
          row = \<lparr>m_id = Suc (messages_id_seq d), m_chan = utf8_roundtrip room, m_user_id = u,
                  m_text = utf8_roundtrip txt, m_created_at = now e\<rparr>)"
  by (auto simp: insert_message_def pg_text_def Let_def split: option.splits if_splits)

lemma insert_dm_message_cases:
  "insert_dm_message d e chat u txt = (r, d') \<Longrightarrow>
     messages d' = messages d \<and> users d' = users d \<and> friends d' = friends d \<and>
     (case r of Inl err \<Rightarrow> dm_messages d' = dm_messages d
      | Inr row \<Rightarrow> dm_messages d' = dm_messages d @ [row] \<and> fault e = None \<and>
          row = \<lparr>m_id = Suc (dm_messages_id_seq d), m_chan = utf8_roundtrip chat, m_user_id = u,
                  m_text = utf8_roundtrip txt, m_created_at = now e\<rparr>)"
  by (auto simp: insert_dm_message_def pg_text_def Let_def split: option.splits if_splits)

lemma send_message_cases:
  fixes p :: "'a room_payload_scheme"
  assumes "send_message s sid p e = (s', acts)"
  shows "(s' = s \<and> acts = [] \<and>
            (map_of (connectedUsers s) sid = None \<or> text_in p = [] \<or> trim (text_in p) = [] \<or>
             500 < length (text_in p)))
       \<or> (\<exists>user err d. map_of (connectedUsers s) sid = Some user \<and>
             text_in p \<noteq> [] \<and> trim (text_in p) \<noteq> [] \<and> length (text_in p) \<le> 500 \<and>
             insert_message (pool s) e (roomId p) (uid user) (trim (text_in p)) = (Inl err, d) \<and>
             s' = s\<lparr>pool := d\<rparr> \<and> acts = [Deliver sid (MessageError err)])
       \<or> (\<exists>user row d. map_of (connectedUsers s) sid = Some user \<and>
             text_in p \<noteq> [] \<and> trim (text_in p) \<noteq> [] \<and> length (text_in p) \<le> 500 \<and>
             insert_message (pool s) e (roomId p) (uid user) (trim (text_in p)) = (Inr row, d) \<and>
             s' = s\<lparr>pool := d\<rparr> \<and>
             acts = Stored row # io_to_emit s (room_channel (roomId p))
               (NewMessage \<lparr>w_id = m_id row, w_chan = roomId p, w_user_id = uid user,
                  w_name = name user, w_photo = photo user, w_premium = premium user,
                  w_text = m_text row, w_created_at = m_created_at row\<rparr>))"
  using assms
  by (auto simp: send_message_def split: option.splits if_splits prod.splits sum.splits)

lemma send_dm_cases:
  fixes p :: "'a dm_payload_scheme"
  assumes "send_dm s sid p e = (s', acts)"
  shows "(s' = s \<and> acts = [] \<and>
            (map_of (connectedUsers s) sid = None \<or> text_in p = [] \<or> trim (text_in p) = [] \<or>
             500 < length (text_in p) \<or>
             (\<exists>user. map_of (connectedUsers s) sid = Some user \<and>
                \<not> includes_js (split (chatId p) underscore) (uid user))))
       \<or> (\<exists>user err d. map_of (connectedUsers s) sid = Some user \<and>
             text_in p \<noteq> [] \<and> trim (text_in p) \<noteq> [] \<and> length (text_in p) \<le> 500 \<and>
             includes_js (split (chatId p) underscore) (uid user) \<and>
             insert_dm_message (pool s) e (chatId p) (uid user) (trim (text_in p)) = (Inl err, d) \<and>
             s' = s\<lparr>pool := d\<rparr> \<and> acts = [Deliver sid (MessageError err)])
       \<or> (\<exists>user row d. map_of (connectedUsers s) sid = Some user \<and>
             text_in p \<noteq> [] \<and> trim (text_in p) \<noteq> [] \<and> length (text_in p) \<le> 500 \<and>
             includes_js (split (chatId p) underscore) (uid user) \<and>
             insert_dm_message (pool s) e (chatId p) (uid user) (trim (text_in p)) = (Inr row, d) \<and>
             s' = s\<lparr>pool := d\<rparr> \<and>
             acts = StoredDm row # io_to_emit s (dm_channel (chatId p))
               (NewDm \<lparr>w_id = m_id row, w_chan = chatId p, w_user_id = uid user,
                  w_name = name user, w_photo = photo user, w_premium = premium user,
                  w_text = m_text row, w_created_at = m_created_at row\<rparr>))"
  using assms
  by (auto simp: send_dm_def split: option.splits if_splits prod.splits sum.splits)

lemma send_message_store:
  fixes p :: "'a room_payload_scheme"
  shows "dm_messages (pool (fst (send_message s sid p e))) = dm_messages (pool s) \<and>
     (messages (pool (fst (send_message s sid p e))) = messages (pool s) \<or>
      (\<exists>row. messages (pool (fst (send_message s sid p e))) = messages (pool s) @ [row] \<and>
         m_text row = utf8_roundtrip (trim (text_in p)) \<and> m_text row \<noteq> [] \<and>
         length (m_text row) \<le> 500 \<and> char_length (m_text row) \<le> 500))"
proof (cases "send_message s sid p e")
  case (Pair s' acts)
  from send_message_cases[OF Pair] length_trim[of "text_in p"]
    char_length_le[of "utf8_roundtrip (trim (text_in p))"] show ?thesis
    unfolding Pair
    by (auto dest!: insert_message_cases simp: length_utf8_roundtrip utf8_roundtrip_Nil)
qed

lemma send_dm_store:
  fixes p :: "'a dm_payload_scheme"
  shows "messages (pool (fst (send_dm s sid p e))) = messages (pool s) \<and>
     (dm_messages (pool (fst (send_dm s sid p e))) = dm_messages (pool s) \<or>
      (\<exists>row. dm_messages (pool (fst (send_dm s sid p e))) = dm_messages (pool s) @ [row] \<and>
         m_text row = utf8_roundtrip (trim (text_in p)) \<and> m_text row \<noteq> [] \<and>
         length (m_text row) \<le> 500 \<and> char_length (m_text row) \<le> 500))"
proof (cases "send_dm s sid p e")
  case (Pair s' acts)
  from send_dm_cases[OF Pair] length_trim[of "text_in p"]
    char_length_le[of "utf8_roundtrip (trim (text_in p))"] show ?thesis
    unfolding Pair
    by (auto dest!: insert_dm_message_cases simp: length_utf8_roundtrip utf8_roundtrip_Nil)
qed

lemma trim_Nil: "trim [] = []"
  by (simp add: trim_def)

lemma send_message_dropped_iff:
  fixes p :: "'a room_payload_scheme"
  assumes "map_of (connectedUsers s) sid = Some user"
  shows "send_message s sid p e = (s, []) \<longleftrightarrow> trim (text_in p) = [] \<or> 500 < length (text_in p)"
  using assms
  by (auto simp: send_message_def trim_Nil split: prod.splits sum.splits)

lemma send_dm_dropped_iff:
  fixes q :: "'a dm_payload_scheme"
  assumes "map_of (connectedUsers s) sid = Some user"
  shows "send_dm s sid q e = (s, []) \<longleftrightarrow>
     trim (text_in q) = [] \<or> 500 < length (text_in q) \<or>
     \<not> includes_js (split (chatId q) underscore) (uid user)"
  using assms
  by (auto simp: send_dm_def trim_Nil split: prod.splits sum.splits)

text \<open>
  C2, as amended. A send by an authenticated session is dropped, with no write, no
  broadcast and no event to the sender, exactly when the text is empty after trimming, or
  the untrimmed text has more than 500 code units, or, for a direct send only, the
  sender's identity id is not among the pieces of the channel id split at the
  underscore. A room send is not tested against the rooms the socket has joined.
\<close>

theorem send_dropped_exactly_when:
  fixes p :: "'a room_payload_scheme" and q :: "'b dm_payload_scheme"
  assumes "map_of (connectedUsers s) sid = Some user"
  shows "(send_message s sid p e = (s, []) \<longleftrightarrow>
            trim (text_in p) = [] \<or> 500 < length (text_in p))
       \<and> (send_dm s sid q e = (s, []) \<longleftrightarrow>
            trim (text_in q) = [] \<or> 500 < length (text_in q) \<or>
            \<not> includes_js (split (chatId q) underscore) (uid user))"
  using send_message_dropped_iff[OF assms] send_dm_dropped_iff[OF assms] by blast

theorem send_dropped_exactly_when_witness:
  "map_of (connectedUsers demo_server) (js ''k1'') = Some (demo_session ''alice'' ''Alice'')
   \<and> send_message demo_server (js ''k1'') \<lparr>text_in = js ''hi'', roomId = js ''lounge''\<rparr> (quiet 7)
       \<noteq> (demo_server, [])
   \<and> send_dm demo_server (js ''k1'') \<lparr>text_in = js ''hi'', chatId = js ''alice_bob''\<rparr> (quiet 7)
       \<noteq> (demo_server, [])
   \<and> send_dm demo_server (js ''k1'') \<lparr>text_in = js ''hi'', chatId = js ''bob_carol''\<rparr> (quiet 7)
       = (demo_server, [])"
proof -
  have h: "map_of (connectedUsers demo_server) (js ''k1'') = Some (demo_session ''alice'' ''Alice'')"
    by (simp add: demo_defs)
  show ?thesis
    using h
      send_dropped_exactly_when[OF h, where e = "quiet 7"
        and p = "\<lparr>text_in = js ''hi'', roomId = js ''lounge''\<rparr>"
        and q = "\<lparr>text_in = js ''hi'', chatId = js ''alice_bob''\<rparr>"]
      send_dropped_exactly_when[OF h, where e = "quiet 7"
        and p = "\<lparr>text_in = js ''hi'', roomId = js ''lounge''\<rparr>"
        and q = "\<lparr>text_in = js ''hi'', chatId = js ''bob_carol''\<rparr>"]
    by (simp add: demo_session_def js_def underscore_def trim_def is_ws_def includes_js_def split_def)
qed

text \<open>
  C2, as stated, fails: alice's socket has not joined the room \<open>lounge\<close>, and her send
  to it is not dropped.
\<close>

theorem room_send_by_non_member_counterexample:
  "\<not> (send_message demo_server (js ''k1'') \<lparr>text_in = js ''hi'', roomId = js ''lounge''\<rparr> (quiet 7)
        = (demo_server, [])
      \<longleftrightarrow> (trim (js ''hi'') = [] \<or> 500 < length (js ''hi'') \<or>
           room_channel (js ''lounge'') \<notin> rooms demo_server (js ''k1'')))"
proof -
  have "room_channel (js ''lounge'') \<notin> rooms demo_server (js ''k1'')"
    by (simp add: demo_defs)
  moreover have "snd (send_message demo_server (js ''k1'')
      \<lparr>text_in = js ''hi'', roomId = js ''lounge''\<rparr> (quiet 7)) \<noteq> []"
    by (simp add: demo_defs handler_defs)
  ultimately show ?thesis by auto
qed

lemma send_message_trace_full:
  fixes p :: "'a room_payload_scheme"
  assumes run: "send_message s sid p e = (s', acts)"
  shows "(acts = [] \<and> s' = s)
     \<or> (\<exists>err. acts = [Deliver sid (MessageError err)] \<and>
           messages (pool s') = messages (pool s) \<and> dm_messages (pool s') = dm_messages (pool s))
     \<or> (\<exists>row w user d. acts = Stored row # map (\<lambda>k. Deliver k (NewMessage w))
                                        (membersOf s (room_channel (roomId p))) \<and>
           messages (pool s') = messages (pool s) @ [row] \<and>
           w_id w = m_id row \<and> w_created_at w = m_created_at row \<and> w_text w = m_text row \<and>
           map_of (connectedUsers s) sid = Some user \<and>
           insert_message (pool s) e (roomId p) (uid user) (trim (text_in p)) = (Inr row, d) \<and>
           m_id row = Suc (messages_id_seq (pool s)) \<and> m_created_at row = now e)"
proof (cases "map_of (connectedUsers s) sid")
  case None
  then show ?thesis using run by (simp add: send_message_def)
next
  case (Some user)
  show ?thesis
  proof (cases "valid_text (text_in p)")
    case False
    then have "send_message s sid p e = (s, [])"
      using Some by (auto simp: send_message_def valid_text_def)
    with run show ?thesis by simp
  next
    case True
    obtain r d where ins: "insert_message (pool s) e (roomId p) (uid user) (trim (text_in p)) = (r, d)"
      by (cases "insert_message (pool s) e (roomId p) (uid user) (trim (text_in p))")
    show ?thesis
    proof (cases r)
      case (Inl err)
      have "send_message s sid p e = (s\<lparr>pool := d\<rparr>, [Deliver sid (MessageError err)])"
        using Some True ins Inl by (simp add: send_message_def valid_text_def)
      with run insert_message_cases[OF ins] Inl show ?thesis by auto
    next
      case (Inr row)
      let ?w = "\<lparr>w_id = m_id row, w_chan = roomId p, w_user_id = uid user,
            w_name = name user, w_photo = photo user, w_premium = premium user,
            w_text = m_text row, w_created_at = m_created_at row\<rparr>"
      have "send_message s sid p e =
          (s\<lparr>pool := d\<rparr>,
           Stored row # map (\<lambda>k. Deliver k (NewMessage ?w)) (membersOf s (room_channel (roomId p))))"
        using Some True ins Inr by (simp add: send_message_def valid_text_def io_to_emit_def)
      with run have acts: "acts = Stored row # map (\<lambda>k. Deliver k (NewMessage ?w))
            (membersOf s (room_channel (roomId p)))" and s': "s' = s\<lparr>pool := d\<rparr>"
        by simp_all
      have tab: "messages (pool s') = messages (pool s) @ [row]"
        using insert_message_cases[OF ins] Inr s' by simp
      have w: "w_id ?w = m_id row \<and> w_created_at ?w = m_created_at row \<and> w_text ?w = m_text row"
        by simp
      have row: "m_id row = Suc (messages_id_seq (pool s)) \<and> m_created_at row = now e"
        using insert_message_cases[OF ins] Inr by simp
      have ins': "insert_message (pool s) e (roomId p) (uid user) (trim (text_in p)) = (Inr row, d)"
        using ins Inr by simp
      from acts tab w Some ins' row show ?thesis by blast
    qed
  qed
qed

lemma send_message_trace:
  fixes p :: "'a room_payload_scheme"
  assumes run: "send_message s sid p e = (s', acts)"
  shows "(acts = [] \<and> s' = s)
     \<or> (\<exists>err. acts = [Deliver sid (MessageError err)] \<and>
           messages (pool s') = messages (pool s) \<and> dm_messages (pool s') = dm_messages (pool s))
     \<or> (\<exists>row w. acts = Stored row # map (\<lambda>k. Deliver k (NewMessage w))
                                        (membersOf s (room_channel (roomId p))) \<and>
           messages (pool s') = messages (pool s) @ [row] \<and>
           w_id w = m_id row \<and> w_created_at w = m_created_at row \<and> w_text w = m_text row)"
  using send_message_trace_full[OF run] by blast

lemma send_message_broadcast_origin:
  fixes p :: "'a room_payload_scheme"
  assumes "Deliver k (NewMessage w) \<in> set (snd (send_message s sid p e))"
  shows "\<exists>user row d. map_of (connectedUsers s) sid = Some user \<and>
           insert_message (pool s) e (roomId p) (uid user) (trim (text_in p)) = (Inr row, d) \<and>
           w_id w = m_id row \<and> w_created_at w = m_created_at row \<and>
           m_id row = Suc (messages_id_seq (pool s)) \<and> m_created_at row = now e"
proof -
  obtain s' acts where run: "send_message s sid p e = (s', acts)"
    by (cases "send_message s sid p e")
  with assms have mem: "Deliver k (NewMessage w) \<in> set acts" by simp
  from send_message_trace_full[OF run] show ?thesis
  proof (elim disjE exE conjE)
    assume "acts = []" with mem show ?thesis by simp
  next
    fix err assume "acts = [Deliver sid (MessageError err)]"
    with mem show ?thesis by simp
  next
    fix row :: msg_row and w' :: wire_message and user :: session and d :: database
    assume acts: "acts = Stored row # map (\<lambda>k. Deliver k (NewMessage w')) (membersOf s (room_channel (roomId p)))"
      and facts: "w_id w' = m_id row" "w_created_at w' = m_created_at row"
        "map_of (connectedUsers s) sid = Some user"
        "insert_message (pool s) e (roomId p) (uid user) (trim (text_in p)) = (Inr row, d)"
        "m_id row = Suc (messages_id_seq (pool s))" "m_created_at row = now e"
    from mem acts have "w = w'" by auto
    with facts show ?thesis by blast
  qed
qed

lemma send_dm_trace_full:
  fixes p :: "'a dm_payload_scheme"
  assumes run: "send_dm s sid p e = (s', acts)"
  shows "(acts = [] \<and> s' = s)
     \<or> (\<exists>err. acts = [Deliver sid (MessageError err)] \<and>
           messages (pool s') = messages (pool s) \<and> dm_messages (pool s') = dm_messages (pool s))
     \<or> (\<exists>row w user d. acts = StoredDm row # map (\<lambda>k. Deliver k (NewDm w))
                                        (membersOf s (dm_channel (chatId p))) \<and>
           dm_messages (pool s') = dm_messages (pool s) @ [row] \<and>
           w_id w = m_id row \<and> w_created_at w = m_created_at row \<and> w_text w = m_text row \<and>
           map_of (connectedUsers s) sid = Some user \<and>
           insert_dm_message (pool s) e (chatId p) (uid user) (trim (text_in p)) = (Inr row, d) \<and>
           m_id row = Suc (dm_messages_id_seq (pool s)) \<and> m_created_at row = now e)"
proof (cases "map_of (connectedUsers s) sid")
  case None
  then show ?thesis using run by (simp add: send_dm_def)
next
  case (Some user)
  show ?thesis
  proof (cases "valid_text (text_in p) \<and> includes_js (split (chatId p) underscore) (uid user)")
    case False
    then have "send_dm s sid p e = (s, [])"
      using Some by (auto simp: send_dm_def valid_text_def)
    with run show ?thesis by simp
  next
    case True
    obtain r d where ins: "insert_dm_message (pool s) e (chatId p) (uid user) (trim (text_in p)) = (r, d)"
      by (cases "insert_dm_message (pool s) e (chatId p) (uid user) (trim (text_in p))")
    show ?thesis
    proof (cases r)
      case (Inl err)
      have "send_dm s sid p e = (s\<lparr>pool := d\<rparr>, [Deliver sid (MessageError err)])"
        using Some True ins Inl by (simp add: send_dm_def valid_text_def)
      with run insert_dm_message_cases[OF ins] Inl show ?thesis by auto
    next
      case (Inr row)
      let ?w = "\<lparr>w_id = m_id row, w_chan = chatId p, w_user_id = uid user,
            w_name = name user, w_photo = photo user, w_premium = premium user,
            w_text = m_text row, w_created_at = m_created_at row\<rparr>"
      have "send_dm s sid p e =
          (s\<lparr>pool := d\<rparr>,
           StoredDm row # map (\<lambda>k. Deliver k (NewDm ?w)) (membersOf s (dm_channel (chatId p))))"
        using Some True ins Inr by (simp add: send_dm_def valid_text_def io_to_emit_def)
      with run have acts: "acts = StoredDm row # map (\<lambda>k. Deliver k (NewDm ?w))
            (membersOf s (dm_channel (chatId p)))" and s': "s' = s\<lparr>pool := d\<rparr>"
        by simp_all
      have tab: "dm_messages (pool s') = dm_messages (pool s) @ [row]"
        using insert_dm_message_cases[OF ins] Inr s' by simp
      have w: "w_id ?w = m_id row \<and> w_created_at ?w = m_created_at row \<and> w_text ?w = m_text row"
        by simp
      have row: "m_id row = Suc (dm_messages_id_seq (pool s)) \<and> m_created_at row = now e"
        using insert_dm_message_cases[OF ins] Inr by simp
      have ins': "insert_dm_message (pool s) e (chatId p) (uid user) (trim (text_in p)) = (Inr row, d)"
        using ins Inr by simp
      from acts tab w Some ins' row show ?thesis by blast
    qed
  qed
qed

lemma send_dm_trace:
  fixes p :: "'a dm_payload_scheme"
  assumes run: "send_dm s sid p e = (s', acts)"
  shows "(acts = [] \<and> s' = s)
     \<or> (\<exists>err. acts = [Deliver sid (MessageError err)] \<and>
           messages (pool s') = messages (pool s) \<and> dm_messages (pool s') = dm_messages (pool s))
     \<or> (\<exists>row w. acts = StoredDm row # map (\<lambda>k. Deliver k (NewDm w))
                                        (membersOf s (dm_channel (chatId p))) \<and>
           dm_messages (pool s') = dm_messages (pool s) @ [row] \<and>
           w_id w = m_id row \<and> w_created_at w = m_created_at row \<and> w_text w = m_text row)"
  using send_dm_trace_full[OF run] by blast

lemma send_dm_broadcast_origin:
  fixes p :: "'a dm_payload_scheme"
  assumes "Deliver k (NewDm w) \<in> set (snd (send_dm s sid p e))"
  shows "\<exists>user row d. map_of (connectedUsers s) sid = Some user \<and>
           insert_dm_message (pool s) e (chatId p) (uid user) (trim (text_in p)) = (Inr row, d) \<and>
           w_id w = m_id row \<and> w_created_at w = m_created_at row \<and>
           m_id row = Suc (dm_messages_id_seq (pool s)) \<and> m_created_at row = now e"
proof -
  obtain s' acts where run: "send_dm s sid p e = (s', acts)"
    by (cases "send_dm s sid p e")
  with assms have mem: "Deliver k (NewDm w) \<in> set acts" by simp
  from send_dm_trace_full[OF run] show ?thesis
  proof (elim disjE exE conjE)
    assume "acts = []" with mem show ?thesis by simp
  next
    fix err assume "acts = [Deliver sid (MessageError err)]"
    with mem show ?thesis by simp
  next
    fix row :: msg_row and w' :: wire_message and user :: session and d :: database
    assume acts: "acts = StoredDm row # map (\<lambda>k. Deliver k (NewDm w')) (membersOf s (dm_channel (chatId p)))"
      and facts: "w_id w' = m_id row" "w_created_at w' = m_created_at row"
        "map_of (connectedUsers s) sid = Some user"
        "insert_dm_message (pool s) e (chatId p) (uid user) (trim (text_in p)) = (Inr row, d)"
        "m_id row = Suc (dm_messages_id_seq (pool s))" "m_created_at row = now e"
    from mem acts have "w = w'" by auto
    with facts show ?thesis by blast
  qed
qed

lemma send_message_failed_write:
  fixes p :: "'a room_payload_scheme"
  assumes "map_of (connectedUsers s) sid = Some user" "valid_text (text_in p)"
    "insert_message (pool s) e (roomId p) (uid user) (trim (text_in p)) = (Inl err, d)"
  shows "snd (send_message s sid p e) = [Deliver sid (MessageError err)] \<and>
         messages (pool (fst (send_message s sid p e))) = messages (pool s)"
  using assms insert_message_cases[OF assms(3)]
  by (simp add: send_message_def valid_text_def)

lemma send_dm_failed_write:
  fixes p :: "'a dm_payload_scheme"
  assumes "map_of (connectedUsers s) sid = Some user" "valid_text (text_in p)"
    "includes_js (split (chatId p) underscore) (uid user)"
    "insert_dm_message (pool s) e (chatId p) (uid user) (trim (text_in p)) = (Inl err, d)"
  shows "snd (send_dm s sid p e) = [Deliver sid (MessageError err)] \<and>
         dm_messages (pool (fst (send_dm s sid p e))) = dm_messages (pool s)"
  using assms insert_dm_message_cases[OF assms(4)]
  by (simp add: send_dm_def valid_text_def)

text \<open>
  C5. What a send does is one of three things: nothing; one \<open>message_error\<close> to the
  sender, with both tables as they were; or a row appended to the table followed by the
  deliveries of that row to the members of the channel. So a delivery to members only
  follows a stored row, and when the write fails the sender alone hears of it.
\<close>

theorem broadcast_only_after_persistence:
  fixes p :: "'a room_payload_scheme" and q :: "'b dm_payload_scheme"
  shows
    "(send_message s sid p e = (s', acts) \<longrightarrow>
        (acts = [] \<and> s' = s)
      \<or> (\<exists>err. acts = [Deliver sid (MessageError err)] \<and>
            messages (pool s') = messages (pool s) \<and> dm_messages (pool s') = dm_messages (pool s))
      \<or> (\<exists>row w. acts = Stored row # map (\<lambda>k. Deliver k (NewMessage w))
                                         (membersOf s (room_channel (roomId p))) \<and>
            messages (pool s') = messages (pool s) @ [row] \<and>
            w_id w = m_id row \<and> w_created_at w = m_created_at row \<and> w_text w = m_text row))
   \<and> (send_dm s sid q e = (t', bcts) \<longrightarrow>
        (bcts = [] \<and> t' = s)
      \<or> (\<exists>err. bcts = [Deliver sid (MessageError err)] \<and>
            messages (pool t') = messages (pool s) \<and> dm_messages (pool t') = dm_messages (pool s))
      \<or> (\<exists>row w. bcts = StoredDm row # map (\<lambda>k. Deliver k (NewDm w))
                                         (membersOf s (dm_channel (chatId q))) \<and>
            dm_messages (pool t') = dm_messages (pool s) @ [row] \<and>
            w_id w = m_id row \<and> w_created_at w = m_created_at row \<and> w_text w = m_text row))
   \<and> (map_of (connectedUsers s) sid = Some user \<and> valid_text (text_in p) \<and>
      insert_message (pool s) e (roomId p) (uid user) (trim (text_in p)) = (Inl err, d) \<longrightarrow>
        snd (send_message s sid p e) = [Deliver sid (MessageError err)] \<and>
        messages (pool (fst (send_message s sid p e))) = messages (pool s))
   \<and> (map_of (connectedUsers s) sid = Some user \<and> valid_text (text_in q) \<and>
      includes_js (split (chatId q) underscore) (uid user) \<and>
      insert_dm_message (pool s) e (chatId q) (uid user) (trim (text_in q)) = (Inl err, d) \<longrightarrow>
        snd (send_dm s sid q e) = [Deliver sid (MessageError err)] \<and>
        dm_messages (pool (fst (send_dm s sid q e))) = dm_messages (pool s))"
proof (intro conjI impI)
  assume "send_message s sid p e = (s', acts)"
  then show "(acts = [] \<and> s' = s)
      \<or> (\<exists>err. acts = [Deliver sid (MessageError err)] \<and>
            messages (pool s') = messages (pool s) \<and> dm_messages (pool s') = dm_messages (pool s))
      \<or> (\<exists>row w. acts = Stored row # map (\<lambda>k. Deliver k (NewMessage w))
                                         (membersOf s (room_channel (roomId p))) \<and>
            messages (pool s') = messages (pool s) @ [row] \<and>
            w_id w = m_id row \<and> w_created_at w = m_created_at row \<and> w_text w = m_text row)"
    by (rule send_message_trace)
next
  assume "send_dm s sid q e = (t', bcts)"
  then show "(bcts = [] \<and> t' = s)
      \<or> (\<exists>err. bcts = [Deliver sid (MessageError err)] \<and>
            messages (pool t') = messages (pool s) \<and> dm_messages (pool t') = dm_messages (pool s))
      \<or> (\<exists>row w. bcts = StoredDm row # map (\<lambda>k. Deliver k (NewDm w))
                                         (membersOf s (dm_channel (chatId q))) \<and>
            dm_messages (pool t') = dm_messages (pool s) @ [row] \<and>
            w_id w = m_id row \<and> w_created_at w = m_created_at row \<and> w_text w = m_text row)"
    by (rule send_dm_trace)
next
  assume a: "map_of (connectedUsers s) sid = Some user \<and> valid_text (text_in p) \<and>
      insert_message (pool s) e (roomId p) (uid user) (trim (text_in p)) = (Inl err, d)"
  then show "snd (send_message s sid p e) = [Deliver sid (MessageError err)]"
    using send_message_failed_write[of s sid user p e err d] by blast
  from a show "messages (pool (fst (send_message s sid p e))) = messages (pool s)"
    using send_message_failed_write[of s sid user p e err d] by blast
next
  assume a: "map_of (connectedUsers s) sid = Some user \<and> valid_text (text_in q) \<and>
      includes_js (split (chatId q) underscore) (uid user) \<and>
      insert_dm_message (pool s) e (chatId q) (uid user) (trim (text_in q)) = (Inl err, d)"
  then show "snd (send_dm s sid q e) = [Deliver sid (MessageError err)]"
    using send_dm_failed_write[of s sid user q e err d] by blast
  from a show "dm_messages (pool (fst (send_dm s sid q e))) = dm_messages (pool s)"
    using send_dm_failed_write[of s sid user q e err d] by blast
qed


theorem broadcast_only_after_persistence_witness:
  "snd (send_message demo_server (js ''k1'') \<lparr>text_in = js ''hi'', roomId = js ''lounge''\<rparr> (failing 7))
     = [Deliver (js ''k1'') (MessageError (js ''connection terminated''))]
   \<and> messages (pool (fst (send_message demo_server (js ''k1'')
        \<lparr>text_in = js ''hi'', roomId = js ''lounge''\<rparr> (failing 7)))) = []
   \<and> snd (send_dm demo_server (js ''k1'') \<lparr>text_in = js ''hi'', chatId = js ''alice_bob''\<rparr> (failing 7))
     = [Deliver (js ''k1'') (MessageError (js ''connection terminated''))]
   \<and> dm_messages (pool (fst (send_dm demo_server (js ''k1'')
        \<lparr>text_in = js ''hi'', chatId = js ''alice_bob''\<rparr> (failing 7)))) = []
   \<and> snd (send_message demo_server (js ''k1'') \<lparr>text_in = js ''hi'', roomId = js ''lounge''\<rparr> (quiet 7))
     = [Stored \<lparr>m_id = 1, m_chan = js ''lounge'', m_user_id = js ''alice'', m_text = js ''hi'',
                 m_created_at = 7\<rparr>,
        Deliver (js ''k2'') (NewMessage \<lparr>w_id = 1, w_chan = js ''lounge'', w_user_id = js ''alice'',
          w_name = js ''Alice'', w_photo = Some (js ''p.png''), w_premium = False,
          w_text = js ''hi'', w_created_at = 7\<rparr>)]"
  using broadcast_only_after_persistence[where s = demo_server and sid = "js ''k1''"
      and e = "failing 7" and user = "demo_session ''alice'' ''Alice''"
      and err = "js ''connection terminated''" and d = demo_db
      and p = "\<lparr>text_in = js ''hi'', roomId = js ''lounge''\<rparr>"
      and q = "\<lparr>text_in = js ''hi'', chatId = js ''alice_bob''\<rparr>"]
  by (simp add: demo_defs handler_defs valid_text_def)

text \<open>
  C7. A broadcast message carries the id and the timestamp of the row that the insert
  returned: the next value of the table's sequence and the store's clock. The payload may
  be any extension of the two fields the handler reads; nothing else of it is used.
\<close>

theorem broadcast_carries_stored_id_and_time:
  fixes p :: "'a room_payload_scheme" and q :: "'b dm_payload_scheme"
  shows
    "(Deliver k (NewMessage w) \<in> set (snd (send_message s sid p e)) \<longrightarrow>
        (\<exists>user row d. map_of (connectedUsers s) sid = Some user \<and>
           insert_message (pool s) e (roomId p) (uid user) (trim (text_in p)) = (Inr row, d) \<and>
           w_id w = m_id row \<and> w_created_at w = m_created_at row \<and>
           m_id row = Suc (messages_id_seq (pool s)) \<and> m_created_at row = now e))
   \<and> (Deliver k (NewDm w) \<in> set (snd (send_dm s sid q e)) \<longrightarrow>
        (\<exists>user row d. map_of (connectedUsers s) sid = Some user \<and>
           insert_dm_message (pool s) e (chatId q) (uid user) (trim (text_in q)) = (Inr row, d) \<and>
           w_id w = m_id row \<and> w_created_at w = m_created_at row \<and>
           m_id row = Suc (dm_messages_id_seq (pool s)) \<and> m_created_at row = now e))"
  using send_message_broadcast_origin[of k w s sid p e] send_dm_broadcast_origin[of k w s sid q e]
  by blast

theorem broadcast_carries_stored_id_and_time_witness:
  "Deliver (js ''k2'')
     (NewMessage \<lparr>w_id = 1, w_chan = js ''lounge'', w_user_id = js ''bob'', w_name = js ''Bob'',
        w_photo = Some (js ''p.png''), w_premium = False, w_text = js ''hi'', w_created_at = 7\<rparr>)
     \<in> set (snd (send_message demo_server (js ''k2'')
          \<lparr>text_in = js ''hi'', roomId = js ''lounge'', claimed_id = 999, claimed_created_at = 5\<rparr>
          (quiet 7)))
   \<and> Deliver (js ''k1'')
     (NewDm \<lparr>w_id = 1, w_chan = js ''alice_bob'', w_user_id = js ''bob'', w_name = js ''Bob'',
        w_photo = Some (js ''p.png''), w_premium = False, w_text = js ''hi'', w_created_at = 7\<rparr>)
     \<in> set (snd (send_dm demo_server (js ''k2'')
          \<lparr>text_in = js ''hi'', chatId = js ''alice_bob'', claimed_dm_id = 999,
             claimed_dm_created_at = 5\<rparr>
          (quiet 7)))
   \<and> Suc (messages_id_seq (pool demo_server)) = 1 \<and> now (quiet 7) = 7"
  using broadcast_carries_stored_id_and_time[where s = demo_server and sid = "js ''k2''"
      and e = "quiet 7" and k = "js ''k2''"
      and w = "\<lparr>w_id = 1, w_chan = js ''lounge'', w_user_id = js ''bob'', w_name = js ''Bob'',
        w_photo = Some (js ''p.png''), w_premium = False, w_text = js ''hi'', w_created_at = 7\<rparr>"
      and p = "\<lparr>text_in = js ''hi'', roomId = js ''lounge'', claimed_id = 999,
        claimed_created_at = 5\<rparr>"
      and q = "\<lparr>text_in = js ''hi'', chatId = js ''alice_bob'', claimed_dm_id = 999,
        claimed_dm_created_at = 5\<rparr>"]
    broadcast_carries_stored_id_and_time[where s = demo_server and sid = "js ''k2''"
      and e = "quiet 7" and k = "js ''k1''"
      and w = "\<lparr>w_id = 1, w_chan = js ''alice_bob'', w_user_id = js ''bob'', w_name = js ''Bob'',
        w_photo = Some (js ''p.png''), w_premium = False, w_text = js ''hi'', w_created_at = 7\<rparr>"
      and p = "\<lparr>text_in = js ''hi'', roomId = js ''lounge'', claimed_id = 999,
        claimed_created_at = 5\<rparr>"
      and q = "\<lparr>text_in = js ''hi'', chatId = js ''alice_bob'', claimed_dm_id = 999,
        claimed_dm_created_at = 5\<rparr>"]
  by (simp add: demo_defs handler_defs)

section \<open>Properties of joining\<close>

lemma leave_others_eq: "leave_others k rs = rs \<inter> {k}"
  by (auto simp: leave_others_def)

lemma join_dm_cases:
  "join_dm s sid chat =
     (if \<exists>user. map_of (connectedUsers s) sid = Some user \<and>
           includes_js (split chat underscore) (uid user)
      then s\<lparr>rooms := (rooms s)(sid := insert (dm_channel chat) (rooms s sid \<inter> {sid}))\<rparr>
      else s)"
  by (auto simp: join_dm_def leave_others_eq split: option.splits)

text \<open>
  C3, as amended. For an authenticated session, joining a direct channel succeeds exactly
  when the caller's identity id is one of the pieces of the channel name split at the
  underscore, however many pieces there are: then the socket leaves its channel and joins
  the direct channel. Otherwise the state is unchanged.
\<close>

theorem join_dm_succeeds_exactly_when:
  assumes "map_of (connectedUsers s) sid = Some user"
  shows "(includes_js (split chat underscore) (uid user) \<longrightarrow>
            join_dm s sid chat =
              s\<lparr>rooms := (rooms s)(sid := insert (dm_channel chat) (rooms s sid \<inter> {sid}))\<rparr>)
       \<and> (\<not> includes_js (split chat underscore) (uid user) \<longrightarrow> join_dm s sid chat = s)
       \<and> (dm_channel chat \<in> rooms (join_dm s sid chat) sid \<longleftrightarrow>
            includes_js (split chat underscore) (uid user) \<or> dm_channel chat \<in> rooms s sid)"
  using assms by (auto simp: join_dm_cases)

theorem join_dm_succeeds_exactly_when_witness:
  "map_of (connectedUsers demo_server) (js ''k1'') = Some (demo_session ''alice'' ''Alice'')
   \<and> rooms (join_dm demo_server (js ''k1'') (js ''alice_carol'')) (js ''k1'')
       = {js ''k1'', js ''dm_alice_carol''}
   \<and> join_dm demo_server (js ''k1'') (js ''bob_carol'') = demo_server
   \<and> rooms (join_dm demo_server (js ''k1'') (js ''alice'')) (js ''k1'')
       = {js ''k1'', js ''dm_alice''}"
proof -
  have h: "map_of (connectedUsers demo_server) (js ''k1'') = Some (demo_session ''alice'' ''Alice'')"
    by (simp add: demo_defs)
  have a: "includes_js (split (js ''alice_carol'') underscore) (uid (demo_session ''alice'' ''Alice''))"
    by (simp add: demo_defs handler_defs)
  have b: "\<not> includes_js (split (js ''bob_carol'') underscore) (uid (demo_session ''alice'' ''Alice''))"
    by (simp add: demo_defs handler_defs)
  have c: "includes_js (split (js ''alice'') underscore) (uid (demo_session ''alice'' ''Alice''))"
    by (simp add: demo_defs handler_defs)
  have r: "rooms demo_server (js ''k1'') \<inter> {js ''k1''} = {js ''k1''}"
    by (simp add: demo_defs)
  show ?thesis
    using h a b c r
      join_dm_succeeds_exactly_when[OF h, of "js ''alice_carol''"]
      join_dm_succeeds_exactly_when[OF h, of "js ''bob_carol''"]
      join_dm_succeeds_exactly_when[OF h, of "js ''alice''"]
    by (auto simp: dm_channel_def js_def)
qed

text \<open>
  C3, as stated, fails: \<open>alice_bob_carol\<close> splits into three ids, and alice joins it.
\<close>

theorem join_dm_three_ids_counterexample:
  "\<not> (dm_channel (js ''alice_bob_carol'')
          \<in> rooms (join_dm demo_server (js ''k1'') (js ''alice_bob_carol'')) (js ''k1'')
      \<longleftrightarrow> length (split (js ''alice_bob_carol'') underscore) = 2 \<and>
          includes_js (split (js ''alice_bob_carol'') underscore) (js ''alice''))"
proof -
  have "split (js ''alice_bob_carol'') underscore = [js ''alice'', js ''bob'', js ''carol'']"
    by (simp add: demo_defs handler_defs)
  moreover have "rooms (join_dm demo_server (js ''k1'') (js ''alice_bob_carol'')) (js ''k1'')
      = {js ''k1'', js ''dm_alice_bob_carol''}"
    by (auto simp: join_dm_def leave_others_eq demo_defs handler_defs)
  ultimately show ?thesis by (simp add: dm_channel_def js_def)
qed

lemma rooms_disconnect: "rooms (disconnect s k e) = (rooms s)(k := {})"
  by (simp add: disconnect_def Let_def split: option.splits)


lemma ban_loop_rooms:
  "rooms (fst (ban_loop s e t l)) j = rooms s j \<or> rooms (fst (ban_loop s e t l)) j = {}"
proof (induction l arbitrary: s)
  case Nil
  then show ?case by simp
next
  case (Cons x l)
  obtain socketId u where x: "x = (socketId, u)" by (cases x)
  show ?case
  proof (cases "uid u = t")
    case False
    with Cons.IH[of s] x show ?thesis by simp
  next
    case True
    let ?s1 = "if socketId \<in> set (sockets s) then disconnect s socketId e else s"
    have step: "rooms ?s1 j = rooms s j \<or> rooms ?s1 j = {}"
      by (simp add: rooms_disconnect)
    have "fst (ban_loop s e t (x # l)) = fst (ban_loop ?s1 e t l)"
      using True x by (simp split: prod.splits)
    with Cons.IH[of ?s1] step show ?thesis by metis
  qed
qed

lemma http_rooms:
  "rooms (fst (snd (http s req e))) j = rooms s j \<or> rooms (fst (snd (http s req e))) j = {}"
proof (cases req)
  case (AdminBan bearer target)
  show ?thesis
    using ban_loop_rooms[of "s\<lparr>pool := update_user (pool s) target (\<lambda>r. r\<lparr>u_is_banned := True\<rparr>)\<rparr>" e target "connectedUsers s" j]
    by (auto simp: AdminBan http_def admin_ban_def with_admin_def with_auth_def
        split: sum.splits option.splits prod.splits)
qed (auto simp: http_def auth_google_def get_me_def put_name_def put_photo_def
      get_room_messages_def get_dm_messages_def get_friends_def lookup_user_def add_friend_def
      admin_unban_def admin_delete_message_def with_admin_def with_auth_def
      split: sum.splits option.splits prod.splits)

lemma send_message_rooms: "rooms (fst (send_message s sid p e)) = rooms s"
  by (auto simp: send_message_def split: option.splits prod.splits sum.splits)

lemma send_dm_rooms: "rooms (fst (send_dm s sid p e)) = rooms s"
  by (auto simp: send_dm_def split: option.splits prod.splits sum.splits)

lemma auth_rooms: "rooms (fst (auth s sid tok e)) = rooms s"
  by (auto simp: auth_def split: option.splits)

lemma auth_frame:
  "connectedUsers (fst (auth s sid tok e)) = connectedUsers s \<and>
   sockets (fst (auth s sid tok e)) = sockets s \<and> pool (fst (auth s sid tok e)) = pool s"
  by (auto simp: auth_def split: option.splits)

lemma answer_auth_frame:
  "connectedUsers (fst (answer_auth s sid n e)) = connectedUsers s \<and>
   sockets (fst (answer_auth s sid n e)) = sockets s \<and>
   rooms (fst (answer_auth s sid n e)) = rooms s \<and>
   pool (fst (answer_auth s sid n e)) = pool s"
  by (auto simp: answer_auth_def split: option.splits)

lemma auth_then_frame:
  "rooms (fst (auth_then s sid u rows e)) = rooms s \<and>
   sockets (fst (auth_then s sid u rows e)) = sockets s \<and>
   messages (pool (fst (auth_then s sid u rows e))) = messages (pool s) \<and>
   dm_messages (pool (fst (auth_then s sid u rows e))) = dm_messages (pool s) \<and>
   (k \<noteq> sid \<longrightarrow>
      map_of (connectedUsers (fst (auth_then s sid u rows e))) k = map_of (connectedUsers s) k)"
  by (auto simp: auth_then_def touch_last_seen_def update_user_def update_conv'
      split: option.splits)

lemma resume_auth_frame:
  "rooms (fst (resume_auth s sid n e)) = rooms s \<and>
   sockets (fst (resume_auth s sid n e)) = sockets s \<and>
   messages (pool (fst (resume_auth s sid n e))) = messages (pool s) \<and>
   dm_messages (pool (fst (resume_auth s sid n e))) = dm_messages (pool s) \<and>
   (k \<noteq> sid \<longrightarrow>
      map_of (connectedUsers (fst (resume_auth s sid n e))) k = map_of (connectedUsers s) k)"
proof (cases "n < length (in_flight s sid)")
  case True
  note n = this
  let ?s0 = "s\<lparr>in_flight :=
      (in_flight s)(sid := take n (in_flight s sid) @ drop (Suc n) (in_flight s sid))\<rparr>"
  show ?thesis
  proof (cases "p_answer (in_flight s sid ! n)")
    case None
    with n show ?thesis by (simp add: resume_auth_def)
  next
    case (Some rows)
    from auth_then_frame[of ?s0 sid "p_uid (in_flight s sid ! n)" rows e k] n Some
    show ?thesis by (simp add: resume_auth_def)
  qed
next
  case False
  then show ?thesis by (simp add: resume_auth_def)
qed

lemma step_rooms:
  "rooms (fst (step s ev e)) j = rooms s j \<or> rooms (fst (step s ev e)) j = {}
   \<or> rooms (fst (step s ev e)) j = {j}
   \<or> (\<exists>c. rooms (fst (step s ev e)) j = insert c (rooms s j \<inter> {j}))"
proof (cases ev)
  case (Http req)
  with http_rooms[of s req e j] show ?thesis
    by (auto simp: step_def split: prod.splits)
qed (auto simp: step_def on_socket_def connection_def auth_rooms send_message_rooms send_dm_rooms
      rooms_disconnect join_room_def join_dm_cases leave_others_eq resume_auth_frame
      answer_auth_frame)

lemma one_channel_step:
  assumes "finite (rooms s j) \<and> card (channels_of s j) \<le> 1"
  shows "finite (rooms (fst (step s ev e)) j) \<and> card (channels_of (fst (step s ev e)) j) \<le> 1"
proof -
  have ins: "\<And>c. insert c (rooms s j \<inter> {j}) - {j} \<subseteq> {c}" by auto
  have "\<And>c. card (insert c (rooms s j \<inter> {j}) - {j}) \<le> 1"
    using card_mono[OF _ ins] by fastforce
  with step_rooms[of s ev e j] assms show ?thesis
    by (auto simp: channels_of_def)
qed

lemma at_most_one_channel_step:
  "at_most_one_channel s \<Longrightarrow> at_most_one_channel (fst (step s ev e))"
  using one_channel_step by (simp add: at_most_one_channel_def)

lemma at_most_one_channel_run:
  "at_most_one_channel s \<Longrightarrow> at_most_one_channel (run s evs)"
  by (induction evs arbitrary: s) (auto simp: at_most_one_channel_step)

lemma at_most_one_channel_init: "at_most_one_channel (init_server admin d)"
  by (simp add: at_most_one_channel_def init_server_def channels_of_def)

lemma join_room_channels:
  "channels_of (join_room s sid room) sid = {room_channel room} - {sid}"
  by (auto simp: channels_of_def join_room_def leave_others_eq)

text \<open>
  C8. In every state the server reaches from its start every socket is in at most one
  channel, and every event of any kind keeps it so. A join that takes effect leaves the
  socket with its own room and the new channel only: the channel it was in is left.
\<close>

theorem one_channel_per_connection:
  "at_most_one_channel (run (init_server admin d) evs)
   \<and> (at_most_one_channel t \<longrightarrow> at_most_one_channel (fst (step t ev e)))
   \<and> rooms (join_room s sid room) sid = insert (room_channel room) (rooms s sid \<inter> {sid})
   \<and> channels_of (join_room s sid room) sid = {room_channel room} - {sid}
   \<and> (join_dm s sid chat = s \<or>
      (rooms (join_dm s sid chat) sid = insert (dm_channel chat) (rooms s sid \<inter> {sid}) \<and>
       channels_of (join_dm s sid chat) sid = {dm_channel chat} - {sid}))"
proof -
  have "at_most_one_channel (run (init_server admin d) evs)"
    by (simp add: at_most_one_channel_run at_most_one_channel_init)
  moreover have "at_most_one_channel t \<longrightarrow> at_most_one_channel (fst (step t ev e))"
    by (simp add: at_most_one_channel_step)
  moreover have "rooms (join_room s sid room) sid = insert (room_channel room) (rooms s sid \<inter> {sid})"
    by (simp add: join_room_def leave_others_eq)
  moreover have "join_dm s sid chat = s \<or>
      (rooms (join_dm s sid chat) sid = insert (dm_channel chat) (rooms s sid \<inter> {sid}) \<and>
       channels_of (join_dm s sid chat) sid = {dm_channel chat} - {sid})"
    by (auto simp: join_dm_cases channels_of_def)
  ultimately show ?thesis by (simp add: join_room_channels)
qed


theorem one_channel_per_connection_witness:
  "channels_of (run (init_server (js ''root'') demo_db)
       [(Connection (js ''k''), quiet 1), (JoinRoom (js ''k'') (js ''a''), quiet 2)]) (js ''k'')
     = {js ''room_a''}
   \<and> channels_of (fst (step (run (init_server (js ''root'') demo_db)
       [(Connection (js ''k''), quiet 1), (JoinRoom (js ''k'') (js ''a''), quiet 2)])
       (JoinRoom (js ''k'') (js ''b'')) (quiet 3))) (js ''k'')
     = {js ''room_b''}
   \<and> at_most_one_channel (run (init_server (js ''root'') demo_db)
       [(Connection (js ''k''), quiet 1), (JoinRoom (js ''k'') (js ''a''), quiet 2)])
   \<and> at_most_one_channel (fst (step (run (init_server (js ''root'') demo_db)
       [(Connection (js ''k''), quiet 1), (JoinRoom (js ''k'') (js ''a''), quiet 2)])
       (JoinRoom (js ''k'') (js ''b'')) (quiet 3)))"
proof -
  let ?s = "run (init_server (js ''root'') demo_db)
       [(Connection (js ''k''), quiet 1), (JoinRoom (js ''k'') (js ''a''), quiet 2)]"
  have a: "channels_of ?s (js ''k'') = {js ''room_a''}"
    by (auto simp: init_server_def step_def on_socket_def connection_def join_room_def
        leave_others_eq channels_of_def room_channel_def js_def)
  have b: "channels_of (fst (step ?s (JoinRoom (js ''k'') (js ''b'')) (quiet 3))) (js ''k'')
      = {js ''room_b''}"
    by (auto simp: init_server_def step_def on_socket_def connection_def join_room_def
        leave_others_eq channels_of_def room_channel_def js_def)
  from a b
    one_channel_per_connection[where admin = "js ''root''" and d = demo_db
      and evs = "[(Connection (js ''k''), quiet 1), (JoinRoom (js ''k'') (js ''a''), quiet 2)]"
      and t = ?s and ev = "JoinRoom (js ''k'') (js ''b'')" and e = "quiet 3"]
  show ?thesis by simp
qed

lemma send_message_frame:
  "connectedUsers (fst (send_message s sid p e)) = connectedUsers s \<and>
   sockets (fst (send_message s sid p e)) = sockets s \<and>
   rooms (fst (send_message s sid p e)) = rooms s"
  by (auto simp: send_message_def split: option.splits prod.splits sum.splits)

lemma send_dm_frame:
  "connectedUsers (fst (send_dm s sid p e)) = connectedUsers s \<and>
   sockets (fst (send_dm s sid p e)) = sockets s \<and>
   rooms (fst (send_dm s sid p e)) = rooms s"
  by (auto simp: send_dm_def split: option.splits prod.splits sum.splits)

lemma map_of_update_other: "k \<noteq> k' \<Longrightarrow> map_of (AList.update k' v l) k = map_of l k"
  by (simp add: update_conv')

lemma map_of_delete_other: "k \<noteq> k' \<Longrightarrow> map_of (AList.delete k' l) k = map_of l k"
  by (simp add: delete_conv')

lemma disconnect_other:
  assumes "k \<noteq> k'"
  shows "(k \<in> set (sockets (disconnect s k' e)) \<longleftrightarrow> k \<in> set (sockets s)) \<and>
         rooms (disconnect s k' e) k = rooms s k \<and>
         map_of (connectedUsers (disconnect s k' e)) k = map_of (connectedUsers s) k"
  using assms
  by (auto simp: disconnect_def Let_def map_of_delete_other split: option.splits)

lemma ban_loop_other:
  assumes "k \<notin> fst ` set l"
  shows "(k \<in> set (sockets (fst (ban_loop s e t l))) \<longleftrightarrow> k \<in> set (sockets s)) \<and>
         rooms (fst (ban_loop s e t l)) k = rooms s k \<and>
         map_of (connectedUsers (fst (ban_loop s e t l))) k = map_of (connectedUsers s) k"
  using assms
proof (induction l arbitrary: s)
  case Nil
  then show ?case by simp
next
  case (Cons x l)
  obtain socketId u where x: "x = (socketId, u)" by (cases x)
  with Cons.prems have ne: "k \<noteq> socketId" and rest: "k \<notin> fst ` set l" by auto
  show ?case
  proof (cases "uid u = t")
    case False
    with Cons.IH[OF rest, of s] x show ?thesis by simp
  next
    case True
    let ?s1 = "if socketId \<in> set (sockets s) then disconnect s socketId e else s"
    have eq: "fst (ban_loop s e t (x # l)) = fst (ban_loop ?s1 e t l)"
      using True x by (simp split: prod.splits)
    have "(k \<in> set (sockets ?s1) \<longleftrightarrow> k \<in> set (sockets s)) \<and> rooms ?s1 k = rooms s k \<and>
          map_of (connectedUsers ?s1) k = map_of (connectedUsers s) k"
      using disconnect_other[OF ne, of s e] by simp
    with Cons.IH[OF rest, of ?s1] eq show ?thesis by simp
  qed
qed

lemma map_of_None_notin: "map_of l k = None \<Longrightarrow> k \<notin> fst ` set l"
  by (simp add: map_of_eq_None_iff)

lemma http_other:
  assumes "map_of (connectedUsers s) k = None"
  shows "(k \<in> set (sockets (fst (snd (http s req e)))) \<longleftrightarrow> k \<in> set (sockets s)) \<and>
         rooms (fst (snd (http s req e))) k = rooms s k \<and>
         map_of (connectedUsers (fst (snd (http s req e)))) k = None"
proof (cases req)
  case (AdminBan bearer target)
  have "k \<notin> fst ` set (connectedUsers s)"
    using assms by (rule map_of_None_notin)
  from ban_loop_other[OF this,
      of "s\<lparr>pool := update_user (pool s) target (\<lambda>r. r\<lparr>u_is_banned := True\<rparr>)\<rparr>" e target]
  show ?thesis
    using assms
    by (auto simp: AdminBan http_def admin_ban_def with_admin_def with_auth_def
        split: sum.splits option.splits prod.splits)
qed (use assms in \<open>auto simp: http_def auth_google_def get_me_def put_name_def put_photo_def
      get_room_messages_def get_dm_messages_def get_friends_def lookup_user_def add_friend_def
      admin_unban_def admin_delete_message_def with_admin_def with_auth_def
      split: sum.splits option.splits prod.splits\<close>)

lemma unauthenticated_member_step:
  assumes "k \<in> set (sockets s)" "map_of (connectedUsers s) k = None" "c \<in> rooms s k"
    "leaves_alone k ev"
  shows "k \<in> set (sockets (fst (step s ev e))) \<and>
         map_of (connectedUsers (fst (step s ev e))) k = None \<and>
         c \<in> rooms (fst (step s ev e)) k"
proof (cases ev)
  case (Connection k')
  with assms show ?thesis by (auto simp: step_def connection_def)
next
  case (Auth k' tok)
  with assms auth_frame[of s k' tok e] auth_rooms[of s k' tok e] show ?thesis
    by (auto simp: step_def on_socket_def)
next
  case (AuthAnswer k' n)
  with assms answer_auth_frame[of s k' n e] show ?thesis
    by (simp add: step_def)
next
  case (AuthThen k' n)
  with assms have "k \<noteq> k'" by auto
  with assms AuthThen resume_auth_frame[of s k' n e k] show ?thesis
    by (simp add: step_def)
next
  case (JoinRoom k' room)
  with assms show ?thesis by (auto simp: step_def on_socket_def join_room_def)
next
  case (JoinDm k' chat)
  with assms show ?thesis by (auto simp: step_def on_socket_def join_dm_cases)
next
  case (SendMessage k' p)
  with assms send_message_frame[of s k' p e] show ?thesis
    by (auto simp: step_def on_socket_def)
next
  case (SendDm k' p)
  with assms send_dm_frame[of s k' p e] show ?thesis
    by (auto simp: step_def on_socket_def)
next
  case (Disconnect k')
  with assms have "k \<noteq> k'" by auto
  from disconnect_other[OF this, of s e] assms Disconnect show ?thesis
    by (auto simp: step_def on_socket_def)
next
  case (Http req)
  with http_other[OF assms(2), of req e] assms show ?thesis
    by (auto simp: step_def split: prod.splits)
qed

lemma unauthenticated_member_run:
  assumes "k \<in> set (sockets s)" "map_of (connectedUsers s) k = None" "c \<in> rooms s k"
    "\<forall>x\<in>set evs. leaves_alone k (fst x)"
  shows "k \<in> set (sockets (run s evs)) \<and> map_of (connectedUsers (run s evs)) k = None \<and>
         c \<in> rooms (run s evs) k"
  using assms
proof (induction evs arbitrary: s)
  case Nil
  then show ?case by simp
next
  case (Cons x evs)
  obtain ev e where x: "x = (ev, e)" by (cases x)
  with Cons.prems have "leaves_alone k ev" by simp
  from unauthenticated_member_step[OF Cons.prems(1,2,3) this, of e]
  have "k \<in> set (sockets (fst (step s ev e)))"
    "map_of (connectedUsers (fst (step s ev e))) k = None"
    "c \<in> rooms (fst (step s ev e)) k" by simp_all
  from Cons.IH[OF this] Cons.prems(4) x show ?case by simp
qed


lemma member_receives: "k \<in> set (membersOf s c) \<Longrightarrow> Deliver k ev \<in> set (io_to_emit s c ev)"
  by (simp add: io_to_emit_def)

lemma no_session_cannot_send:
  fixes p :: "'a room_payload_scheme" and q :: "'b dm_payload_scheme"
  assumes "map_of (connectedUsers s) k = None"
  shows "send_message s k p e = (s, []) \<and> send_dm s k q e = (s, [])"
  using assms by (simp add: send_message_def send_dm_def)

lemma stored_room_message_reaches_member:
  fixes p :: "'a room_payload_scheme"
  assumes mem: "k \<in> set (membersOf s (room_channel (roomId p)))"
    and sent: "Stored row \<in> set (snd (send_message s sender p e))"
  shows "\<exists>w. Deliver k (NewMessage w) \<in> set (snd (send_message s sender p e)) \<and>
             w_id w = m_id row \<and> w_text w = m_text row"
proof -
  obtain s' acts where run: "send_message s sender p e = (s', acts)"
    by (cases "send_message s sender p e")
  with sent have st: "Stored row \<in> set acts" by simp
  from send_message_trace[OF run] show ?thesis
  proof (elim disjE exE conjE)
    assume "acts = []" with st show ?thesis by simp
  next
    fix err assume "acts = [Deliver sender (MessageError err)]"
    with st show ?thesis by simp
  next
    fix row' :: msg_row and w :: wire_message
    assume acts: "acts = Stored row' # map (\<lambda>k. Deliver k (NewMessage w))
          (membersOf s (room_channel (roomId p)))"
      and w: "w_id w = m_id row'" "w_text w = m_text row'"
    from st acts have "row = row'" by auto
    moreover from mem acts have "Deliver k (NewMessage w) \<in> set acts" by simp
    ultimately show ?thesis using w run by auto
  qed
qed

text \<open>
  C9. A live socket without a session joins a room by asking. From then on, as long as the
  socket itself neither authenticates, joins nor disconnects, it is a member of the room:
  every event emitted to the room is delivered to it, in particular every room message
  that is stored, and its own sends are dropped.
\<close>

theorem unauthenticated_socket_joins_room:
  fixes p p' :: "'a room_payload_scheme" and q :: "'b dm_payload_scheme"
  assumes live: "sid \<in> set (sockets s)"
    and unauth: "map_of (connectedUsers s) sid = None"
    and alone: "\<forall>x\<in>set evs. leaves_alone sid (fst x)"
  shows "room_channel room \<in> rooms (fst (step s (JoinRoom sid room) e)) sid
       \<and> sid \<in> set (membersOf (run (fst (step s (JoinRoom sid room) e)) evs) (room_channel room))
       \<and> Deliver sid ev \<in> set (io_to_emit (run (fst (step s (JoinRoom sid room) e)) evs)
                                  (room_channel room) ev)
       \<and> (roomId p = room \<and>
          Stored row \<in> set (snd (send_message (run (fst (step s (JoinRoom sid room) e)) evs)
                                    sender p e')) \<longrightarrow>
            (\<exists>w. Deliver sid (NewMessage w)
                    \<in> set (snd (send_message (run (fst (step s (JoinRoom sid room) e)) evs)
                                  sender p e')) \<and>
                 w_id w = m_id row \<and> w_text w = m_text row))
       \<and> send_message (run (fst (step s (JoinRoom sid room) e)) evs) sid p' e'
           = (run (fst (step s (JoinRoom sid room) e)) evs, [])
       \<and> send_dm (run (fst (step s (JoinRoom sid room) e)) evs) sid q e'
           = (run (fst (step s (JoinRoom sid room) e)) evs, [])"
proof -
  let ?s1 = "fst (step s (JoinRoom sid room) e)"
  let ?s2 = "run ?s1 evs"
  have s1: "sid \<in> set (sockets ?s1)" "map_of (connectedUsers ?s1) sid = None"
    "room_channel room \<in> rooms ?s1 sid"
    using live unauth by (simp_all add: step_def on_socket_def join_room_def)
  from unauthenticated_member_run[OF s1 alone]
  have s2: "sid \<in> set (sockets ?s2)" "map_of (connectedUsers ?s2) sid = None"
    "room_channel room \<in> rooms ?s2 sid" by simp_all
  then have mem: "sid \<in> set (membersOf ?s2 (room_channel room))"
    by (simp add: membersOf_def)
  have recv: "Deliver sid ev \<in> set (io_to_emit ?s2 (room_channel room) ev)"
    using mem by (rule member_receives)
  have msg: "roomId p = room \<and> Stored row \<in> set (snd (send_message ?s2 sender p e')) \<longrightarrow>
            (\<exists>w. Deliver sid (NewMessage w) \<in> set (snd (send_message ?s2 sender p e')) \<and>
                 w_id w = m_id row \<and> w_text w = m_text row)"
    using mem stored_room_message_reaches_member[of sid ?s2 p row sender e'] by blast
  from s1(3) mem recv msg no_session_cannot_send[OF s2(2), where p = p' and e = e' and q = q]
  show ?thesis by blast
qed

theorem unauthenticated_socket_joins_room_witness:
  "js ''k3'' \<in> set (sockets demo_server)
   \<and> map_of (connectedUsers demo_server) (js ''k3'') = None
   \<and> leaves_alone (js ''k3'') (JoinRoom (js ''k1'') (js ''attic''))
   \<and> Stored \<lparr>m_id = 1, m_chan = js ''lounge'', m_user_id = js ''bob'', m_text = js ''hi'',
               m_created_at = 7\<rparr>
       \<in> set (snd (send_message
             (run (fst (step demo_server (JoinRoom (js ''k3'') (js ''lounge'')) (quiet 2)))
                [(JoinRoom (js ''k1'') (js ''attic''), quiet 3)])
             (js ''k2'') \<lparr>text_in = js ''hi'', roomId = js ''lounge''\<rparr> (quiet 7)))
   \<and> (\<exists>w. Deliver (js ''k3'') (NewMessage w)
       \<in> set (snd (send_message
             (run (fst (step demo_server (JoinRoom (js ''k3'') (js ''lounge'')) (quiet 2)))
                [(JoinRoom (js ''k1'') (js ''attic''), quiet 3)])
             (js ''k2'') \<lparr>text_in = js ''hi'', roomId = js ''lounge''\<rparr> (quiet 7)))
        \<and> w_id w = 1 \<and> w_text w = js ''hi'')
   \<and> snd (send_message
             (run (fst (step demo_server (JoinRoom (js ''k3'') (js ''lounge'')) (quiet 2)))
                [(JoinRoom (js ''k1'') (js ''attic''), quiet 3)])
             (js ''k3'') \<lparr>text_in = js ''hi'', roomId = js ''lounge''\<rparr> (quiet 7)) = []"
proof -
  have live: "js ''k3'' \<in> set (sockets demo_server)"
    by (simp add: demo_defs)
  have unauth: "map_of (connectedUsers demo_server) (js ''k3'') = None"
    by (simp add: demo_defs)
  have alone: "\<forall>x\<in>set [(JoinRoom (js ''k1'') (js ''attic''), quiet 3)]. leaves_alone (js ''k3'') (fst x)"
    by (simp add: js_def)
  let ?s2 = "run (fst (step demo_server (JoinRoom (js ''k3'') (js ''lounge'')) (quiet 2)))
                [(JoinRoom (js ''k1'') (js ''attic''), quiet 3)]"
  have stored: "Stored \<lparr>m_id = 1, m_chan = js ''lounge'', m_user_id = js ''bob'', m_text = js ''hi'',
               m_created_at = 7\<rparr>
       \<in> set (snd (send_message ?s2 (js ''k2'') \<lparr>text_in = js ''hi'', roomId = js ''lounge''\<rparr> (quiet 7)))"
    by (simp add: step_def on_socket_def join_room_def leave_others_eq demo_defs handler_defs)
  from unauthenticated_socket_joins_room[OF live unauth alone,
      where room = "js ''lounge''" and e = "quiet 2" and e' = "quiet 7" and sender = "js ''k2''"
      and p = "\<lparr>text_in = js ''hi'', roomId = js ''lounge''\<rparr>"
      and p' = "\<lparr>text_in = js ''hi'', roomId = js ''lounge''\<rparr>"
      and q = "\<lparr>text_in = js ''hi'', chatId = js ''alice_bob''\<rparr>"
      and row = "\<lparr>m_id = 1, m_chan = js ''lounge'', m_user_id = js ''bob'', m_text = js ''hi'',
               m_created_at = 7\<rparr>"]
    stored live unauth
  show ?thesis by (simp add: js_def)
qed

section \<open>The history queries\<close>

lemma joined_lounge_row: "joined_row busy_db (lounge_row i) = Some (lounge_history_row i)"
  by (simp add: joined_row_def busy_db_def lounge_row_def lounge_history_row_def demo_defs)

lemma joined_lounge_rows:
  "List.map_filter (joined_row busy_db) (map lounge_row l) = map lounge_history_row l"
  by (induction l) (simp_all add: map_filter_simps joined_lounge_row)

lemma lounge_rows_filter:
  "filter (\<lambda>m. m_chan m = js ''lounge'') (map lounge_row l) = map lounge_row l"
  by (induction l) (simp_all add: lounge_row_def)

lemma sorted_lounge: "sorted (map h_created_at (map lounge_history_row [i..<j]))"
proof -
  have "map h_created_at (map lounge_history_row [i..<j]) = [i..<j]"
    by (simp add: lounge_history_row_def comp_def)
  then show ?thesis by simp
qed

lemma busy_history:
  "select_history busy_db (messages busy_db) (js ''lounge'') = map lounge_history_row [1..<81]"
proof -
  have "messages busy_db = map lounge_row [1..<82]"
    by (simp add: busy_db_def)
  then have "select_history busy_db (messages busy_db) (js ''lounge'')
      = take 80 (sort_key h_created_at (map lounge_history_row [1..<82]))"
    by (simp add: select_history_def lounge_rows_filter joined_lounge_rows)
  also have "\<dots> = take 80 (map lounge_history_row [1..<82])"
    using sorted_lounge[of 1 82] by (simp add: sort_key_id_if_sorted)
  also have "\<dots> = map lounge_history_row [1..<81]"
    by (simp add: take_map)
  finally show ?thesis .
qed

text \<open>
  C1. With 81 messages in the room, written at the times 1 to 81, the history route
  answers with the messages 1 to 80 in ascending order: the oldest 80. The newest message,
  81, is not in the answer.
\<close>

theorem history_returns_oldest_80:
  "fst (get_room_messages busy_server (Some (jwt_sign (js ''alice'') 0)) (js ''lounge'') (quiet 100))
     = json_ok (MessagesBody (map lounge_history_row [1..<81]))
   \<and> map m_id (messages (pool busy_server)) = [1..<82]
   \<and> map h_id (map lounge_history_row [1..<81]) = [1..<81]"
proof -
  have "authMiddleware (Some (jwt_sign (js ''alice'') 0)) (now (quiet 100)) = Inr (js ''alice'')"
    by (simp add: authMiddleware_def jwt_verify_def jwt_sign_def quiet_def)
  then have "fst (get_room_messages busy_server (Some (jwt_sign (js ''alice'') 0)) (js ''lounge'') (quiet 100))
     = json_ok (MessagesBody (select_history busy_db (messages busy_db) (js ''lounge'')))"
    by (simp add: get_room_messages_def with_auth_def busy_server_def quiet_def)
  moreover have "map m_id (messages (pool busy_server)) = [1..<82]"
    by (simp add: busy_server_def busy_db_def lounge_row_def comp_def)
  moreover have "map h_id (map lounge_history_row [1..<81]) = [1..<81]"
    by (simp add: lounge_history_row_def comp_def)
  ultimately show ?thesis by (simp add: busy_history)
qed

section \<open>Failed requests\<close>

lemmas http_defs =
  http_def auth_google_def get_me_def put_name_def put_photo_def get_room_messages_def
  get_dm_messages_def get_friends_def lookup_user_def add_friend_def admin_ban_def
  admin_unban_def admin_delete_message_def with_admin_def with_auth_def authMiddleware_def
  adminMiddleware_def json_error_def json_ok_def

lemma auth_google_failed:
  assumes "auth_google s idToken verdict e = (r, s', acts)" "status r \<noteq> 200"
  shows "(\<exists>msg. body r = ErrorBody msg) \<and> acts = [] \<and> connectedUsers s' = connectedUsers s \<and>
         sockets s' = sockets s \<and> rooms s' = rooms s \<and>
         (pool s' = pool s \<or>
          (\<exists>g row. verdict = Inr g \<and> status r = 403 \<and> users (pool s) (sub g) = Some row \<and>
             u_is_banned row \<and>
             pool s' = (pool s)\<lparr>users := (users (pool s))(sub g \<mapsto>
                 row\<lparr>u_last_seen := now e, u_photo := Some (or_default (picture g) [])\<rparr>)\<rparr>))"
proof (cases "idToken = None \<or> idToken = Some []")
  case True
  with assms show ?thesis by (auto simp: auth_google_def json_error_def)
next
  case False
  note tok = this
  show ?thesis
  proof (cases verdict)
    case (Inl msg)
    with assms tok show ?thesis by (auto simp: auth_google_def json_error_def)
  next
    case (Inr g)
    show ?thesis
    proof (cases "fault e")
      case (Some err)
      with assms tok Inr show ?thesis by (auto simp: auth_google_def json_error_def)
    next
      case None
      show ?thesis
      proof (cases "users (pool s) (sub g)")
        case no_row: None
        with assms tok Inr None show ?thesis
          by (auto simp: auth_google_def json_error_def json_ok_def upsert_user_def Let_def)
      next
        case (Some row)
        show ?thesis
        proof (cases "u_is_banned row")
          case False
          with assms tok Inr None Some show ?thesis
            by (auto simp: auth_google_def json_error_def json_ok_def upsert_user_def Let_def)
        next
          case True
          with assms tok Inr None Some have
            "r = json_error 403 (js ''Tu cuenta ha sido baneada de Therians.'')"
            "acts = []"
            "s' = s\<lparr>pool := (pool s)\<lparr>users := (users (pool s))(sub g \<mapsto>
                 row\<lparr>u_last_seen := now e, u_photo := Some (or_default (picture g) [])\<rparr>)\<rparr>\<rparr>"
            by (auto simp: auth_google_def upsert_user_def Let_def coalesce_def)
          with Inr Some True show ?thesis by (simp add: json_error_def)
        qed
      qed
    qed
  qed
qed

lemma ban_frame_failed:
  assumes "admin_ban s bearer target e = (r, s', acts)" "status r \<noteq> 200"
  shows "(\<exists>msg. body r = ErrorBody msg) \<and> acts = [] \<and> s' = s"
  using assms
  by (auto simp: admin_ban_def with_admin_def with_auth_def authMiddleware_def
      adminMiddleware_def json_error_def json_ok_def
      split: sum.splits option.splits prod.splits if_splits)

text \<open>
  C6, as amended. A request that is answered with a status other than 200 gets a body
  \<open>{ error }\<close>, emits nothing and leaves the sessions, the sockets and their rooms as they
  were. It leaves the store as it was as well, with one exception: the login that is
  refused with 403 because the identity is banned has run its upsert before the test, so
  the stored row has a new \<open>last_seen\<close> and the photo of the credential.
\<close>

theorem failed_request_leaves_store:
  assumes "http s req e = (r, s', acts)" and "status r \<noteq> 200"
  shows "(\<exists>msg. body r = ErrorBody msg) \<and> acts = [] \<and> connectedUsers s' = connectedUsers s \<and>
         sockets s' = sockets s \<and> rooms s' = rooms s \<and>
         (pool s' = pool s \<or>
          (\<exists>idToken g row. req = AuthGoogle idToken (Inr g) \<and> status r = 403 \<and>
             users (pool s) (sub g) = Some row \<and> u_is_banned row \<and>
             pool s' = (pool s)\<lparr>users := (users (pool s))(sub g \<mapsto>
                 row\<lparr>u_last_seen := now e, u_photo := Some (or_default (picture g) [])\<rparr>)\<rparr>))"
proof (cases req)
  case (AuthGoogle idToken verdict)
  with assms have "auth_google s idToken verdict e = (r, s', acts)" by (simp add: http_def)
  from auth_google_failed[OF this assms(2)] AuthGoogle show ?thesis by auto
next
  case (AdminBan bearer target)
  with assms have "admin_ban s bearer target e = (r, s', acts)" by (simp add: http_def)
  from ban_frame_failed[OF this assms(2)] show ?thesis by auto
qed (use assms in \<open>auto simp: http_defs split: sum.splits option.splits prod.splits if_splits\<close>)

theorem failed_request_leaves_store_witness:
  "status (fst (http demo_server (PutName (Some (jwt_sign (js ''alice'') 0)) None) (quiet 50))) = 400
   \<and> body (fst (http demo_server (PutName (Some (jwt_sign (js ''alice'') 0)) None) (quiet 50)))
       = ErrorBody (js ''Nombre invalido'')
   \<and> pool (fst (snd (http demo_server (PutName (Some (jwt_sign (js ''alice'') 0)) None) (quiet 50))))
       = pool demo_server"
proof -
  let ?res = "http demo_server (PutName (Some (jwt_sign (js ''alice'') 0)) None) (quiet 50)"
  have r: "?res = (fst ?res, fst (snd ?res), snd (snd ?res))" by simp
  have st: "status (fst ?res) = 400"
    by (simp add: http_defs jwt_sign_def jwt_verify_def quiet_def)
  then have ne: "status (fst ?res) \<noteq> 200" by simp
  have b: "body (fst ?res) = ErrorBody (js ''Nombre invalido'')"
    by (simp add: http_defs jwt_sign_def jwt_verify_def quiet_def)
  from failed_request_leaves_store[OF r ne] st b show ?thesis by auto
qed

text \<open>
  C6, as stated, fails: the refused login of the banned identity changes its stored row.
\<close>

theorem banned_login_writes_row_counterexample:
  "status (fst (http demo_server mallory_login (quiet 50))) = 403
   \<and> users (pool demo_server) (js ''mallory'') = Some (demo_row ''Mallory'' True)
   \<and> users (pool (fst (snd (http demo_server mallory_login (quiet 50))))) (js ''mallory'')
       = Some ((demo_row ''Mallory'' True)\<lparr>u_last_seen := 50, u_photo := Some (js ''new.png'')\<rparr>)
   \<and> \<not> (status (fst (http demo_server mallory_login (quiet 50))) \<noteq> 200 \<longrightarrow>
          pool (fst (snd (http demo_server mallory_login (quiet 50)))) = pool demo_server)"
proof -
  have a: "status (fst (http demo_server mallory_login (quiet 50))) = 403"
    by (simp add: mallory_login_def http_defs upsert_user_def or_default_def coalesce_def Let_def demo_defs)
  have b: "users (pool demo_server) (js ''mallory'') = Some (demo_row ''Mallory'' True)"
    by (simp add: demo_defs)
  have c: "users (pool (fst (snd (http demo_server mallory_login (quiet 50))))) (js ''mallory'')
       = Some ((demo_row ''Mallory'' True)\<lparr>u_last_seen := 50, u_photo := Some (js ''new.png'')\<rparr>)"
    by (simp add: mallory_login_def http_defs upsert_user_def or_default_def coalesce_def Let_def demo_defs)
  have "users (pool (fst (snd (http demo_server mallory_login (quiet 50))))) (js ''mallory'')
       \<noteq> users (pool demo_server) (js ''mallory'')"
  proof
    assume "users (pool (fst (snd (http demo_server mallory_login (quiet 50))))) (js ''mallory'')
       = users (pool demo_server) (js ''mallory'')"
    with b c have "(demo_row ''Mallory'' True)\<lparr>u_last_seen := 50, u_photo := Some (js ''new.png'')\<rparr>
        = demo_row ''Mallory'' True" by simp
    then have "u_last_seen ((demo_row ''Mallory'' True)\<lparr>u_last_seen := 50,
        u_photo := Some (js ''new.png'')\<rparr>) = u_last_seen (demo_row ''Mallory'' True)"
      by (rule arg_cong)
    then show False by (simp add: demo_row_def)
  qed
  then have "pool (fst (snd (http demo_server mallory_login (quiet 50)))) \<noteq> pool demo_server"
    by metis
  with a b c show ?thesis by simp
qed

section \<open>Banning\<close>

subsection \<open>Live sockets stay in their own room\<close>





lemma step_Http: "fst (step s (Http req) e) = fst (snd (http s req e))"
  by (cases "http s req e") (simp add: step_def)




subsection \<open>The eviction loop\<close>






subsection \<open>The ban flag stays set\<close>


























subsection \<open>No new session of a banned identity\<close>





















lemmas run_defs =
  init_server_def step_def on_socket_def connection_def auth_def answer_auth_def auth_then_def
  resume_auth_def socket_emit_def jwt_sign_def jwt_verify_def touch_last_seen_def
  update_user_def disconnect_def join_room_def











text \<open>
  A lookup that the store has answered when the ban runs carries the rows of before the
  ban. The ban finds no session to evict, and the \<open>then\<close> that runs after it
  registers the session and emits \<open>auth_ok\<close>.
\<close>

lemma auth_in_flight_outlives_ban:
  "status (fst (http bob_asking ban_bob (quiet 3))) = 200
   \<and> snd (snd (http bob_asking ban_bob (quiet 3))) = []
   \<and> banned_in (pool (fst (snd (http bob_asking ban_bob (quiet 3))))) (js ''bob'')
   \<and> snd (step (fst (snd (http bob_asking ban_bob (quiet 3)))) (AuthThen (js ''k2'') 0) (quiet 4))
       = [Deliver (js ''k2'') AuthOk]
   \<and> map_of (connectedUsers
         (fst (step (fst (snd (http bob_asking ban_bob (quiet 3)))) (AuthThen (js ''k2'') 0)
            (quiet 4)))) (js ''k2'')
       = Some (demo_session ''bob'' ''Bob'')"
  by (simp add: bob_asking_def ban_bob_def http_defs run_defs demo_defs banned_in_def)

section \<open>What the store holds\<close>

lemma update_user_tables:
  "messages (update_user d u f) = messages d \<and> dm_messages (update_user d u f) = dm_messages d"
  by (simp add: update_user_def split: option.splits)

lemma touch_tables:
  "messages (touch_last_seen d e u) = messages d \<and>
   dm_messages (touch_last_seen d e u) = dm_messages d"
  by (simp add: touch_last_seen_def update_user_tables split: option.splits)

lemma disconnect_tables:
  "messages (pool (disconnect s k e)) = messages (pool s) \<and>
   dm_messages (pool (disconnect s k e)) = dm_messages (pool s)"
  by (simp add: disconnect_def Let_def touch_tables split: option.splits)

lemma ban_loop_tables:
  "messages (pool (fst (ban_loop s e t l))) = messages (pool s) \<and>
   dm_messages (pool (fst (ban_loop s e t l))) = dm_messages (pool s)"
proof (induction l arbitrary: s)
  case Nil
  then show ?case by simp
next
  case (Cons x l)
  obtain socketId u where x: "x = (socketId, u)" by (cases x)
  let ?s1 = "if socketId \<in> set (sockets s) then disconnect s socketId e else s"
  have s1: "messages (pool ?s1) = messages (pool s) \<and> dm_messages (pool ?s1) = dm_messages (pool s)"
    by (simp add: disconnect_tables)
  show ?case
  proof (cases "uid u = t")
    case False
    with Cons x show ?thesis by simp
  next
    case True
    then have "fst (ban_loop s e t (x # l)) = fst (ban_loop ?s1 e t l)"
      using x by (simp split: prod.splits)
    with Cons.IH[of ?s1] s1 show ?thesis by simp
  qed
qed

lemma upsert_tables:
  "messages (snd (upsert_user d e u nm ph em)) = messages d \<and>
   dm_messages (snd (upsert_user d e u nm ph em)) = dm_messages d"
  by (simp add: upsert_user_def Let_def)

lemma auth_google_tables:
  "messages (pool (fst (snd (auth_google s idToken verdict e)))) = messages (pool s) \<and>
   dm_messages (pool (fst (snd (auth_google s idToken verdict e)))) = dm_messages (pool s)"
proof (cases verdict)
  case (Inl msg)
  then show ?thesis by (simp add: auth_google_def)
next
  case (Inr g)
  obtain user d where up: "upsert_user (pool s) e (sub g)
      (or_default (g_name g) (js ''Anonymous Therian'')) (or_default (picture g) [])
      (or_default (g_email g) []) = (user, d)"
    by (cases "upsert_user (pool s) e (sub g)
      (or_default (g_name g) (js ''Anonymous Therian'')) (or_default (picture g) [])
      (or_default (g_email g) [])")
  with upsert_tables[of "pool s" e "sub g" "or_default (g_name g) (js ''Anonymous Therian'')"
      "or_default (picture g) []" "or_default (g_email g) []"]
  have "messages d = messages (pool s) \<and> dm_messages d = dm_messages (pool s)" by simp
  with Inr up show ?thesis
    by (simp add: auth_google_def split: option.splits)
qed

lemma admin_ban_tables:
  "messages (pool (fst (snd (admin_ban s bearer target e)))) = messages (pool s) \<and>
   dm_messages (pool (fst (snd (admin_ban s bearer target e)))) = dm_messages (pool s)"
  using ban_loop_tables[of
      "s\<lparr>pool := update_user (pool s) target (\<lambda>r. r\<lparr>u_is_banned := True\<rparr>)\<rparr>" e target
      "connectedUsers s"]
  by (auto simp: admin_ban_def with_admin_def with_auth_def update_user_tables
      split: sum.splits option.splits prod.splits)

lemma http_tables:
  "set (messages (pool (fst (snd (http s req e))))) \<subseteq> set (messages (pool s)) \<and>
   dm_messages (pool (fst (snd (http s req e)))) = dm_messages (pool s)"
proof (cases req)
  case (AuthGoogle idToken verdict)
  with auth_google_tables[of s idToken verdict e] show ?thesis by (simp add: http_def)
next
  case (AdminBan bearer target)
  with admin_ban_tables[of s bearer target e] show ?thesis by (simp add: http_def)
qed (auto simp: http_def get_me_def put_name_def put_photo_def get_room_messages_def
      get_dm_messages_def get_friends_def lookup_user_def add_friend_def admin_unban_def
      admin_delete_message_def with_admin_def with_auth_def update_user_tables
      split: sum.splits option.splits)

lemma auth_tables:
  "messages (pool (fst (auth s k tok e))) = messages (pool s) \<and>
   dm_messages (pool (fst (auth s k tok e))) = dm_messages (pool s)"
  by (simp add: auth_frame)

lemma step_messages:
  assumes "row \<in> set (messages (pool (fst (step s ev e))))"
  shows "row \<in> set (messages (pool s)) \<or>
         (\<exists>sid p. ev = SendMessage sid p \<and> m_text row = utf8_roundtrip (trim (text_in p)) \<and>
            m_text row \<noteq> [] \<and> length (m_text row) \<le> 500)"
proof (cases ev)
  case (SendMessage sid p)
  from send_message_store[of s sid p e] assms SendMessage show ?thesis
    by (auto simp: step_def on_socket_def split: if_splits)
next
  case (SendDm sid p)
  from send_dm_store[of s sid p e] assms SendDm show ?thesis
    by (auto simp: step_def on_socket_def split: if_splits)
next
  case (Http req)
  with http_tables[of s req e] assms show ?thesis by (auto simp: step_Http)
qed (use assms in \<open>auto simp: step_def on_socket_def connection_def join_room_def join_dm_cases
      auth_tables disconnect_tables resume_auth_frame answer_auth_frame split: if_splits\<close>)

lemma step_dm_messages:
  assumes "row \<in> set (dm_messages (pool (fst (step s ev e))))"
  shows "row \<in> set (dm_messages (pool s)) \<or>
         (\<exists>sid p. ev = SendDm sid p \<and> m_text row = utf8_roundtrip (trim (text_in p)) \<and>
            m_text row \<noteq> [] \<and> length (m_text row) \<le> 500)"
proof (cases ev)
  case (SendMessage sid p)
  from send_message_store[of s sid p e] assms SendMessage show ?thesis
    by (auto simp: step_def on_socket_def split: if_splits)
next
  case (SendDm sid p)
  from send_dm_store[of s sid p e] assms SendDm show ?thesis
    by (auto simp: step_def on_socket_def split: if_splits)
next
  case (Http req)
  with http_tables[of s req e] assms show ?thesis by (auto simp: step_Http)
qed (use assms in \<open>auto simp: step_def on_socket_def connection_def join_room_def join_dm_cases
      auth_tables disconnect_tables resume_auth_frame answer_auth_frame split: if_splits\<close>)

lemma run_messages:
  assumes "row \<in> set (messages (pool (run s evs)))"
  shows "row \<in> set (messages (pool s)) \<or>
         (\<exists>sid p e. (SendMessage sid p, e) \<in> set evs \<and> m_text row = utf8_roundtrip (trim (text_in p)) \<and>
            m_text row \<noteq> [] \<and> length (m_text row) \<le> 500)"
  using assms
proof (induction evs arbitrary: s)
  case Nil
  then show ?case by simp
next
  case (Cons x evs)
  obtain ev e where x: "x = (ev, e)" by (cases x)
  with Cons.prems have "row \<in> set (messages (pool (run (fst (step s ev e)) evs)))" by simp
  from Cons.IH[OF this] step_messages[of row s ev e] x show ?case by auto
qed

lemma run_dm_messages:
  assumes "row \<in> set (dm_messages (pool (run s evs)))"
  shows "row \<in> set (dm_messages (pool s)) \<or>
         (\<exists>sid p e. (SendDm sid p, e) \<in> set evs \<and> m_text row = utf8_roundtrip (trim (text_in p)) \<and>
            m_text row \<noteq> [] \<and> length (m_text row) \<le> 500)"
  using assms
proof (induction evs arbitrary: s)
  case Nil
  then show ?case by simp
next
  case (Cons x evs)
  obtain ev e where x: "x = (ev, e)" by (cases x)
  with Cons.prems have "row \<in> set (dm_messages (pool (run (fst (step s ev e)) evs)))" by simp
  from Cons.IH[OF this] step_dm_messages[of row s ev e] x show ?case by auto
qed

text \<open>
  C10, as amended. A send changes only its own table, and by at most one row; the text of
  that row is the trimmed input as the store keeps it, that is with every surrogate
  outside a pair replaced by U+FFFD, and so the trimmed input itself when that is
  well-formed. It is not empty and has at most 500 code units (so at most 500 characters,
  as the CHECK of the schema asks). The limit is tested on the input before it is trimmed:
  an input of more than 500 code units is dropped whatever its trimmed length. Nothing
  else writes a message: a row that a run of the server leaves in a table was there before
  or is the row of one of the run's sends.
\<close>

theorem persisted_text_from_trimmed_input:
  fixes p :: "'a room_payload_scheme" and q :: "'b dm_payload_scheme"
  shows
    "(dm_messages (pool (fst (send_message s sid p e))) = dm_messages (pool s) \<and>
      (messages (pool (fst (send_message s sid p e))) = messages (pool s) \<or>
       (\<exists>row. messages (pool (fst (send_message s sid p e))) = messages (pool s) @ [row] \<and>
          m_text row = utf8_roundtrip (trim (text_in p)) \<and>
          (well_formed (trim (text_in p)) \<longrightarrow> m_text row = trim (text_in p)) \<and>
          m_text row \<noteq> [] \<and> length (m_text row) \<le> 500 \<and> char_length (m_text row) \<le> 500)))
     \<and> (messages (pool (fst (send_dm s sid q e))) = messages (pool s) \<and>
      (dm_messages (pool (fst (send_dm s sid q e))) = dm_messages (pool s) \<or>
       (\<exists>row. dm_messages (pool (fst (send_dm s sid q e))) = dm_messages (pool s) @ [row] \<and>
          m_text row = utf8_roundtrip (trim (text_in q)) \<and>
          (well_formed (trim (text_in q)) \<longrightarrow> m_text row = trim (text_in q)) \<and>
          m_text row \<noteq> [] \<and> length (m_text row) \<le> 500 \<and> char_length (m_text row) \<le> 500)))
     \<and> (500 < length (text_in p) \<longrightarrow> send_message s sid p e = (s, []))
     \<and> (500 < length (text_in q) \<longrightarrow> send_dm s sid q e = (s, []))
     \<and> (r \<in> set (messages (pool (run s evs))) \<longrightarrow>
          r \<in> set (messages (pool s)) \<or>
          (\<exists>k p' e'. (SendMessage k p', e') \<in> set evs \<and>
             m_text r = utf8_roundtrip (trim (text_in p')) \<and>
             m_text r \<noteq> [] \<and> length (m_text r) \<le> 500))
     \<and> (r \<in> set (dm_messages (pool (run s evs))) \<longrightarrow>
          r \<in> set (dm_messages (pool s)) \<or>
          (\<exists>k q' e'. (SendDm k q', e') \<in> set evs \<and>
             m_text r = utf8_roundtrip (trim (text_in q')) \<and>
             m_text r \<noteq> [] \<and> length (m_text r) \<le> 500))"
proof -
  have a: "500 < length (text_in p) \<longrightarrow> send_message s sid p e = (s, [])"
    by (simp add: send_message_def split: option.splits)
  have b: "500 < length (text_in q) \<longrightarrow> send_dm s sid q e = (s, [])"
    by (simp add: send_dm_def split: option.splits)
  have wp: "well_formed (trim (text_in p)) \<longrightarrow>
      utf8_roundtrip (trim (text_in p)) = trim (text_in p)"
    by (simp add: well_formed_roundtrip)
  have wq: "well_formed (trim (text_in q)) \<longrightarrow>
      utf8_roundtrip (trim (text_in q)) = trim (text_in q)"
    by (simp add: well_formed_roundtrip)
  have c: "dm_messages (pool (fst (send_message s sid p e))) = dm_messages (pool s) \<and>
      (messages (pool (fst (send_message s sid p e))) = messages (pool s) \<or>
       (\<exists>row. messages (pool (fst (send_message s sid p e))) = messages (pool s) @ [row] \<and>
          m_text row = utf8_roundtrip (trim (text_in p)) \<and>
          (well_formed (trim (text_in p)) \<longrightarrow> m_text row = trim (text_in p)) \<and>
          m_text row \<noteq> [] \<and> length (m_text row) \<le> 500 \<and> char_length (m_text row) \<le> 500))"
    using send_message_store[of s sid p e] wp by metis
  have d: "messages (pool (fst (send_dm s sid q e))) = messages (pool s) \<and>
      (dm_messages (pool (fst (send_dm s sid q e))) = dm_messages (pool s) \<or>
       (\<exists>row. dm_messages (pool (fst (send_dm s sid q e))) = dm_messages (pool s) @ [row] \<and>
          m_text row = utf8_roundtrip (trim (text_in q)) \<and>
          (well_formed (trim (text_in q)) \<longrightarrow> m_text row = trim (text_in q)) \<and>
          m_text row \<noteq> [] \<and> length (m_text row) \<le> 500 \<and> char_length (m_text row) \<le> 500))"
    using send_dm_store[of s sid q e] wq by metis
  from a b c d run_messages[of r s evs] run_dm_messages[of r s evs]
  show ?thesis by blast
qed

theorem persisted_text_from_trimmed_input_witness:
  "messages (pool (fst (send_message demo_server (js ''k1'')
       \<lparr>text_in = js ''  hi '', roomId = js ''lounge''\<rparr> (quiet 7)))) =
     [\<lparr>m_id = 1, m_chan = js ''lounge'', m_user_id = js ''alice'', m_text = js ''hi'',
        m_created_at = 7\<rparr>]
   \<and> well_formed (trim (js ''  hi ''))
   \<and> \<lparr>m_id = 1, m_chan = js ''lounge'', m_user_id = js ''alice'', m_text = js ''hi'',
        m_created_at = 7\<rparr>
       \<in> set (messages (pool (run demo_server
            [(SendMessage (js ''k1'') \<lparr>text_in = js ''  hi '', roomId = js ''lounge''\<rparr>, quiet 7)])))
   \<and> 500 < length (replicate 500 32 @ js ''a'')
   \<and> length (trim (replicate 500 32 @ js ''a'')) \<le> 500
   \<and> send_message demo_server (js ''k1'')
        \<lparr>text_in = replicate 500 32 @ js ''a'', roomId = js ''lounge''\<rparr> (quiet 7) = (demo_server, [])
   \<and> send_dm demo_server (js ''k1'')
        \<lparr>text_in = replicate 500 32 @ js ''a'', chatId = js ''alice_bob''\<rparr> (quiet 7) = (demo_server, [])"
proof -
  have stored: "\<lparr>m_id = 1, m_chan = js ''lounge'', m_user_id = js ''alice'', m_text = js ''hi'',
        m_created_at = 7\<rparr>
       \<in> set (messages (pool (run demo_server
            [(SendMessage (js ''k1'') \<lparr>text_in = js ''  hi '', roomId = js ''lounge''\<rparr>, quiet 7)])))"
    by (simp add: step_def on_socket_def demo_defs handler_defs)
  from stored
    persisted_text_from_trimmed_input[where s = demo_server and sid = "js ''k1''" and e = "quiet 7"
      and p = "\<lparr>text_in = replicate 500 32 @ js ''a'', roomId = js ''lounge''\<rparr>"
      and q = "\<lparr>text_in = replicate 500 32 @ js ''a'', chatId = js ''alice_bob''\<rparr>"
      and evs = "[(SendMessage (js ''k1'') \<lparr>text_in = js ''  hi '', roomId = js ''lounge''\<rparr>,
          quiet 7)]"
      and r = "\<lparr>m_id = 1, m_chan = js ''lounge'', m_user_id = js ''alice'', m_text = js ''hi'',
        m_created_at = 7\<rparr>"]
    persisted_text_from_trimmed_input[where s = demo_server and sid = "js ''k1''" and e = "quiet 7"
      and p = "\<lparr>text_in = js ''  hi '', roomId = js ''lounge''\<rparr>"
      and q = "\<lparr>text_in = js ''  hi '', chatId = js ''alice_bob''\<rparr>"]
  show ?thesis
    by (simp add: demo_defs handler_defs dropWhile_append)
qed

text \<open>
  C10, as stated, fails: the input of the two code units \<open>a\<close> and a high surrogate with
  no low surrogate after it has nothing to trim, and the row that is stored holds \<open>a\<close>
  and U+FFFD.
\<close>

theorem lone_surrogate_not_persisted_counterexample:
  "trim [97, 55296] = [97, 55296]
   \<and> messages (pool (fst (send_message demo_server (js ''k1'')
       \<lparr>text_in = [97, 55296], roomId = js ''lounge''\<rparr> (quiet 7)))) =
     [\<lparr>m_id = 1, m_chan = js ''lounge'', m_user_id = js ''alice'', m_text = [97, 65533],
        m_created_at = 7\<rparr>]
   \<and> [97, 65533] \<noteq> trim [97, 55296]"
  by (simp add: demo_defs handler_defs)

end
